theory Spec2Isabelle
  imports Complex_Main "HOL-Library.Word" "HOL-Library.AList" "HOL-Library.Log_Nat"
begin

unbundle bit_operations_syntax

section \<open>Python values\<close>

text \<open>
  A Python \<open>str\<close> is a sequence of Unicode code points; it is modelled as a list of
  naturals.  \<open>lit\<close> turns an ASCII literal of the source into such a list.
\<close>

type_synonym pystr = "nat list"

definition lit :: "string \<Rightarrow> pystr" where
  "lit s = map of_char s"

text \<open>\<open>str(i)\<close> / \<open>f"{i}"\<close> for an \<open>int\<close>: the decimal digits, with a minus sign.\<close>

fun digits10 :: "nat \<Rightarrow> pystr" where
  "digits10 n = (if n < 10 then [48 + n] else digits10 (n div 10) @ [48 + n mod 10])"

declare digits10.simps [simp del]

definition str_int :: "int \<Rightarrow> pystr" where
  "str_int i = (if i < 0 then 45 # digits10 (nat (- i)) else digits10 (nat i))"


section \<open>Exceptions and the environment\<close>

text \<open>
  The exceptions the modelled code can raise.  Each of them is a subclass of Python's
  \<open>Exception\<close>, which is what every handler of the source (\<open>except Exception\<close>)
  catches.  A computation that may raise returns \<open>exn + 'a\<close>, \<open>Inl\<close> the exception.
\<close>

datatype exn = RuntimeError | ValueError | AttributeError | OverflowError | TypeError
  | ZeroDivisionError

definition bind_e :: "exn + 'a \<Rightarrow> ('a \<Rightarrow> exn + 'b) \<Rightarrow> exn + 'b" where
  "bind_e r f = (case r of Inl x \<Rightarrow> Inl x | Inr v \<Rightarrow> f v)"

text \<open>
  What the program finds around it and does not implement: the platform, the process
  table and the calls of the Windows API (\<open>OpenProcess\<close>, the module snapshot), the
  memory of the foreign process (\<open>cells\<close>, the byte at an address, \<open>None\<close> where
  \<open>ReadProcessMemory\<close> fails; \<open>writable\<close> where \<open>WriteProcessMemory\<close> succeeds), and the
  tables of Python's Unicode database beyond ASCII.
\<close>

record env =
  win32 :: bool
  found_pid :: "nat option"
  opened_handle :: "nat option"
  module_base :: "int option"
  cells :: "int \<Rightarrow> 8 word option"
  writable :: "int \<Rightarrow> bool"
  uc_isspace :: "nat \<Rightarrow> bool"
  uc_isprintable :: "nat \<Rightarrow> bool"
  uc_isalpha :: "nat \<Rightarrow> bool"

subsection \<open>String methods\<close>

text \<open>\<open>str.isspace\<close>, \<open>str.isprintable\<close> and \<open>str.isalpha\<close> for one code point.\<close>

definition isspace :: "env \<Rightarrow> nat \<Rightarrow> bool" where
  "isspace e c = (if c < 128 then (9 \<le> c \<and> c \<le> 13) \<or> (28 \<le> c \<and> c \<le> 32) else uc_isspace e c)"

definition isprintable :: "env \<Rightarrow> nat \<Rightarrow> bool" where
  "isprintable e c = (if c < 128 then 32 \<le> c \<and> c \<le> 126 else uc_isprintable e c)"

definition isalpha :: "env \<Rightarrow> nat \<Rightarrow> bool" where
  "isalpha e c = (if c < 128 then (65 \<le> c \<and> c \<le> 90) \<or> (97 \<le> c \<and> c \<le> 122) else uc_isalpha e c)"

text \<open>\<open>s.strip()\<close>\<close>

definition strip :: "env \<Rightarrow> pystr \<Rightarrow> pystr" where
  "strip e s = rev (dropWhile (isspace e) (rev (dropWhile (isspace e) s)))"

section \<open>\<open>GameMemory\<close>\<close>

record game_memory =
  pid :: "nat option"
  hproc :: "nat option"
  base_addr :: "int option"

text \<open>The truth value of a handle: \<open>None\<close> and 0 are false.\<close>

definition truthy :: "nat option \<Rightarrow> bool" where
  "truthy h = (case h of None \<Rightarrow> False | Some v \<Rightarrow> v \<noteq> 0)"

definition close :: "game_memory \<Rightarrow> game_memory" where
  "close m = \<lparr>pid = None, hproc = None, base_addr = None\<rparr>"

definition open_process :: "env \<Rightarrow> game_memory \<Rightarrow> bool \<times> game_memory" where
  "open_process e m =
     (if \<not> win32 e then (False, close m)
      else case found_pid e of
        None \<Rightarrow> (False, close m)
      | Some p \<Rightarrow>
          if pid m = Some p \<and> truthy (hproc m) then (True, m)
          else if \<not> truthy (opened_handle e) then (False, close (close m))
          else case module_base e of
            None \<Rightarrow> (False, close (close m))
          | Some b \<Rightarrow> (True, \<lparr>pid = Some p, hproc = opened_handle e, base_addr = Some b\<rparr>))"

text \<open>The address space of the process has 64 bits.\<close>

definition cell :: "env \<Rightarrow> int \<Rightarrow> 8 word option" where
  "cell e a = (if 0 \<le> a \<and> a < 2 ^ 64 then cells e a else None)"

text \<open>
  \<open>read_bytes\<close>: \<open>_check_open\<close> raises \<open>RuntimeError\<close>; a negative length makes the
  \<open>ctypes\<close> array type raise \<open>ValueError\<close>; \<open>c_void_p(addr)\<close> takes the address modulo
  \<open>2 ^ 64\<close>; a failed or short read raises \<open>RuntimeError\<close>.
\<close>

definition read_bytes :: "env \<Rightarrow> game_memory \<Rightarrow> int \<Rightarrow> int \<Rightarrow> exn + 8 word list" where
  "read_bytes e m addr len =
     (if hproc m = None \<or> base_addr m = None then Inl RuntimeError
      else if len < 0 then Inl ValueError
      else case those (map (\<lambda>i. cell e (addr mod 2 ^ 64 + int i)) [0..<nat len]) of
        None \<Rightarrow> Inl RuntimeError
      | Some bs \<Rightarrow> Inr bs)"

text \<open>
  \<open>write_bytes\<close>: the write succeeds when every byte of the range can be written, and
  then changes exactly the bytes of the range.
\<close>

definition write_bytes :: "env \<Rightarrow> game_memory \<Rightarrow> int \<Rightarrow> 8 word list \<Rightarrow> exn + env" where
  "write_bytes e m addr data =
     (if hproc m = None \<or> base_addr m = None then Inl RuntimeError
      else if list_all (\<lambda>i. cell e (addr mod 2 ^ 64 + int i) \<noteq> None
                \<and> writable e (addr mod 2 ^ 64 + int i)) [0..<length data]
      then Inr (e\<lparr>cells := (\<lambda>a.
              if addr mod 2 ^ 64 \<le> a \<and> a < addr mod 2 ^ 64 + int (length data)
              then Some (data ! nat (a - addr mod 2 ^ 64)) else cells e a)\<rparr>)
      else Inl RuntimeError)"

text \<open>\<open>int.from_bytes(raw, "little")\<close>, which \<open>struct.unpack("<I")\<close> and \<open>"<Q"\<close> also compute.\<close>

fun from_bytes_little :: "8 word list \<Rightarrow> int" where
  "from_bytes_little [] = 0"
| "from_bytes_little (b # bs) = uint b + 256 * from_bytes_little bs"

text \<open>\<open>v.to_bytes(n, "little")\<close>: \<open>OverflowError\<close> when \<open>v\<close> is negative or does not fit.\<close>

definition to_bytes_little :: "int \<Rightarrow> int \<Rightarrow> exn + 8 word list" where
  "to_bytes_little v n =
     (if n < 0 then Inl ValueError
      else if v < 0 \<or> 256 ^ nat n \<le> v then Inl OverflowError
      else Inr (map (\<lambda>i. word_of_int (v div 256 ^ i)) [0..<nat n]))"

definition read_uint32 :: "env \<Rightarrow> game_memory \<Rightarrow> int \<Rightarrow> exn + int" where
  "read_uint32 e m addr = bind_e (read_bytes e m addr 4) (\<lambda>data. Inr (from_bytes_little data))"

definition read_uint64 :: "env \<Rightarrow> game_memory \<Rightarrow> int \<Rightarrow> exn + int" where
  "read_uint64 e m addr = bind_e (read_bytes e m addr 8) (\<lambda>data. Inr (from_bytes_little data))"

text \<open>
  \<open>GameMemory\<close> defines \<open>read_bytes\<close>, \<open>read_uint32\<close>, \<open>read_uint64\<close> and \<open>read_wstring\<close>
  and no other reader: the attribute lookups \<open>self.mem.read_uint16\<close> and
  \<open>self.mem.read_uint8\<close> of \<open>PlayerDataModel\<close> raise \<open>AttributeError\<close>.
\<close>

definition read_uint16 :: "env \<Rightarrow> game_memory \<Rightarrow> int \<Rightarrow> exn + int" where
  "read_uint16 e m addr = Inl AttributeError"

text \<open>
  \<open>raw.decode("utf-16le", errors="ignore")\<close>: the 16-bit units, low byte first; a
  surrogate pair is one code point, a surrogate without its partner is dropped.
\<close>

fun utf16_units :: "8 word list \<Rightarrow> nat list" where
  "utf16_units (a # b # bs) = (unat a + 256 * unat b) # utf16_units bs"
| "utf16_units _ = []"

definition high_surrogate :: "nat \<Rightarrow> bool" where
  "high_surrogate u = (55296 \<le> u \<and> u \<le> 56319)"

definition low_surrogate :: "nat \<Rightarrow> bool" where
  "low_surrogate u = (56320 \<le> u \<and> u \<le> 57343)"

fun utf16_decode :: "nat list \<Rightarrow> pystr" where
  "utf16_decode [] = []"
| "utf16_decode [u] = (if high_surrogate u \<or> low_surrogate u then [] else [u])"
| "utf16_decode (u # v # us) =
     (if high_surrogate u then
        (if low_surrogate v then (65536 + (u - 55296) * 1024 + (v - 56320)) # utf16_decode us
         else utf16_decode (v # us))
      else if low_surrogate u then utf16_decode (v # us)
      else u # utf16_decode (v # us))"

text \<open>\<open>read_wstring\<close>: the decoded text up to the first NUL.\<close>

definition read_wstring :: "env \<Rightarrow> game_memory \<Rightarrow> int \<Rightarrow> int \<Rightarrow> exn + pystr" where
  "read_wstring e m addr max_chars =
     bind_e (read_bytes e m addr (max_chars * 2))
       (\<lambda>raw. Inr (takeWhile (\<lambda>c. c \<noteq> 0) (utf16_decode (utf16_units raw))))"

text \<open>
  The shifts of Python's \<open>int\<close>: a negative count raises \<open>ValueError\<close>, and a left
  shift of a value other than 0 by a count that does not fit a machine word raises
  \<open>OverflowError\<close>.
\<close>

definition shl :: "int \<Rightarrow> int \<Rightarrow> exn + int" where
  "shl x n = (if n < 0 then Inl ValueError
              else if x \<noteq> 0 \<and> 2 ^ 63 \<le> n then Inl OverflowError
              else Inr (push_bit (nat n) x))"

definition shr :: "int \<Rightarrow> int \<Rightarrow> exn + int" where
  "shr x n = (if n < 0 then Inl ValueError else Inr (drop_bit (nat n) x))"


section \<open>\<open>PlayerDataModel\<close>\<close>

subsection \<open>Layout constants\<close>

definition PLAYER_TABLE_RVA :: int where "PLAYER_TABLE_RVA = 132458904"  \<comment> \<open>0x07E52998\<close>
definition PLAYER_STRIDE :: int where "PLAYER_STRIDE = 1096"  \<comment> \<open>0x448\<close>
definition OFF_LAST_NAME :: int where "OFF_LAST_NAME = 0"
definition OFF_FIRST_NAME :: int where "OFF_FIRST_NAME = 40"  \<comment> \<open>0x028\<close>
definition OFF_FACE_ID :: int where "OFF_FACE_ID = 276"  \<comment> \<open>0x114\<close>
definition OFF_TEAM_PTR :: int where "OFF_TEAM_PTR = 96"  \<comment> \<open>0x060\<close>
definition OFF_TEAM_NAME :: int where "OFF_TEAM_NAME = 724"  \<comment> \<open>0x2D4\<close>
definition NAME_MAX_CHARS :: int where "NAME_MAX_CHARS = 20"
definition TEAM_NAME_OFFSET :: int where "TEAM_NAME_OFFSET = 724"  \<comment> \<open>0x2D4\<close>
definition TEAM_NAME_LENGTH :: int where "TEAM_NAME_LENGTH = 24"
definition TEAM_YEAR_OFFSET :: int where "TEAM_YEAR_OFFSET = 5658"  \<comment> \<open>0x161A\<close>

text \<open>A pointer chain: \<open>(rva_offset, final_offset, extra_deref)\<close>.\<close>

type_synonym chain = "int \<times> int \<times> bool"

definition PLAYER_PTR_CHAINS :: "chain list" where
  "PLAYER_PTR_CHAINS =
     [(132355120, 24, True), (115428936, 328, False), (PLAYER_TABLE_RVA, 0, False),
      (132504968, 0, False)]"

definition TEAM_PTR_CHAINS :: "chain list" where
  "TEAM_PTR_CHAINS = [(132355120, 136, True), (132355120, 0, False), (132119232, 0, False)]"

subsection \<open>State\<close>

text \<open>The fields of \<open>PlayerDataModel\<close> that the modelled methods read or assign.\<close>

record model =
  mem :: game_memory
  resolved_player_base :: "int option"
  resolved_team_base :: "int option"

record player =
  index :: int
  first_name :: pystr
  last_name :: pystr
  team :: pystr
  face_id :: int

subsection \<open>Labels\<close>

text \<open>\<open>_is_printable_ascii(s)\<close> with the default \<open>min_len = 2\<close> and \<open>max_len = 48\<close>.\<close>

definition is_printable_ascii :: "env \<Rightarrow> pystr \<Rightarrow> bool" where
  "is_printable_ascii e s0 =
     (if s0 = [] then False
      else let s = strip e s0 in
        if \<not> (2 \<le> length s \<and> length s \<le> 48) then False
        else if \<not> list_all (isprintable e) s then False
        else 2 \<le> length (filter (isalpha e) s))"

text \<open>\<open>f"{n:02d}"\<close> for \<open>0 \<le> n < 100\<close>.\<close>

definition two_digits :: "int \<Rightarrow> pystr" where
  "two_digits n = [48 + nat (n div 10), 48 + nat (n mod 10)]"

definition format_historic_year :: "int \<Rightarrow> pystr" where
  "format_historic_year val =
     (if val \<le> 0 then []
      else let start_year = 1899 + val; end_year = start_year + 1
           in two_digits (start_year mod 100) @ lit ''-'' @ two_digits (end_year mod 100))"

definition compose_team_name_from_ptr :: "env \<Rightarrow> game_memory \<Rightarrow> int \<Rightarrow> pystr" where
  "compose_team_name_from_ptr e m team_ptr =
     (let base_name = (case read_wstring e m (team_ptr + OFF_TEAM_NAME) TEAM_NAME_LENGTH of
                         Inl _ \<Rightarrow> [] | Inr s \<Rightarrow> strip e s);
          name = base_name;
          year_val = (case read_uint16 e m (team_ptr + TEAM_YEAR_OFFSET) of
                        Inl _ \<Rightarrow> 0 | Inr raw_year \<Rightarrow> drop_bit 3 raw_year AND 127);
          name = (if year_val > 0
                  then (let year_str = format_historic_year year_val
                        in if year_str \<noteq> [] then name @ lit '' '' @ year_str else name)
                  else name)
      in if is_printable_ascii e name then name else lit ''Unknown'')"

subsection \<open>Pointer resolution\<close>

text \<open>The sanity check of the player table: one of the two names of slot 0 is not empty.\<close>

definition player_names_present :: "env \<Rightarrow> game_memory \<Rightarrow> int \<Rightarrow> exn + bool" where
  "player_names_present e m table_base =
     bind_e (read_wstring e m (table_base + OFF_LAST_NAME) NAME_MAX_CHARS) (\<lambda>lname.
     bind_e (read_wstring e m (table_base + OFF_FIRST_NAME) NAME_MAX_CHARS) (\<lambda>fname.
     Inr (strip e lname \<noteq> [] \<or> strip e fname \<noteq> [])))"

text \<open>The address a chain computes: \<open>[base + rva] + final\<close> or \<open>[[base + rva]] + final\<close>.\<close>

definition chain_address :: "env \<Rightarrow> game_memory \<Rightarrow> int \<Rightarrow> chain \<Rightarrow> exn + int" where
  "chain_address e m base c =
     (case c of (rva_off, final_off, extra_deref) \<Rightarrow>
        bind_e (read_uint64 e m (base + rva_off)) (\<lambda>p.
        bind_e (if extra_deref then read_uint64 e m p else Inr p) (\<lambda>p.
        Inr (p + final_off))))"

text \<open>
  The body of the loop over \<open>PLAYER_PTR_CHAINS\<close>: \<open>Inr (Some table_base)\<close> when the
  candidate is accepted, \<open>Inr None\<close> when its names are empty, \<open>Inl\<close> when a read raised
  (the handler continues with the next candidate).
\<close>

definition player_candidate :: "env \<Rightarrow> game_memory \<Rightarrow> int \<Rightarrow> chain \<Rightarrow> exn + int option" where
  "player_candidate e m base c =
     bind_e (chain_address e m base c) (\<lambda>table_base.
     bind_e (player_names_present e m table_base) (\<lambda>ok.
     Inr (if ok then Some table_base else None)))"

text \<open>
  The loop.  Its first result lists the candidates whose body was entered, in the order
  in which they were entered; the source has no such value, it is kept to state which
  candidates are tried.
\<close>

fun resolve_player_loop ::
  "env \<Rightarrow> game_memory \<Rightarrow> int \<Rightarrow> chain list \<Rightarrow> chain list \<times> int option" where
  "resolve_player_loop e m base [] = ([], None)"
| "resolve_player_loop e m base (c # cs) =
     (case player_candidate e m base c of
        Inr (Some table_base) \<Rightarrow> ([c], Some table_base)
      | _ \<Rightarrow> (c # fst (resolve_player_loop e m base cs), snd (resolve_player_loop e m base cs)))"

text \<open>The static fallback \<open>base_addr + PLAYER_TABLE_RVA\<close>, with the same check.\<close>

definition player_fallback :: "env \<Rightarrow> game_memory \<Rightarrow> int \<Rightarrow> exn + int option" where
  "player_fallback e m base =
     (let fallback_addr = base + PLAYER_TABLE_RVA
      in bind_e (player_names_present e m fallback_addr) (\<lambda>ok.
         Inr (if ok then Some fallback_addr else None)))"

definition resolve_player_table_base_with ::
  "chain list \<Rightarrow> env \<Rightarrow> model \<Rightarrow> int option \<times> model" where
  "resolve_player_table_base_with cands e st =
     (case resolved_player_base st of
        Some b \<Rightarrow> (Some b, st)
      | None \<Rightarrow>
          (case base_addr (mem st) of
             None \<Rightarrow> (None, st)
           | Some base \<Rightarrow>
               if \<not> truthy (hproc (mem st)) then (None, st)
               else (case snd (resolve_player_loop e (mem st) base cands) of
                       Some table_base \<Rightarrow>
                         (Some table_base, st\<lparr>resolved_player_base := Some table_base\<rparr>)
                     | None \<Rightarrow>
                         (case player_fallback e (mem st) base of
                            Inr (Some fallback_addr) \<Rightarrow>
                              (Some fallback_addr, st\<lparr>resolved_player_base := Some fallback_addr\<rparr>)
                          | _ \<Rightarrow> (None, st)))))"

definition resolve_player_table_base :: "env \<Rightarrow> model \<Rightarrow> int option \<times> model" where
  "resolve_player_table_base = resolve_player_table_base_with PLAYER_PTR_CHAINS"

text \<open>
  The sanity check of the team table: the name of slot 0 is not empty, printable, and has
  two letters.
\<close>

definition team_name_plausible :: "env \<Rightarrow> game_memory \<Rightarrow> int \<Rightarrow> exn + bool" where
  "team_name_plausible e m team_base =
     bind_e (read_wstring e m (team_base + TEAM_NAME_OFFSET) TEAM_NAME_LENGTH) (\<lambda>s.
     let name = strip e s
     in Inr (name \<noteq> [] \<and> list_all (isprintable e) name \<and> 2 \<le> length (filter (isalpha e) name)))"

definition team_candidate :: "env \<Rightarrow> game_memory \<Rightarrow> int \<Rightarrow> chain \<Rightarrow> exn + int option" where
  "team_candidate e m base c =
     bind_e (chain_address e m base c) (\<lambda>team_base.
     bind_e (team_name_plausible e m team_base) (\<lambda>ok.
     Inr (if ok then Some team_base else None)))"

fun resolve_team_loop ::
  "env \<Rightarrow> game_memory \<Rightarrow> int \<Rightarrow> chain list \<Rightarrow> chain list \<times> int option" where
  "resolve_team_loop e m base [] = ([], None)"
| "resolve_team_loop e m base (c # cs) =
     (case team_candidate e m base c of
        Inr (Some team_base) \<Rightarrow> ([c], Some team_base)
      | _ \<Rightarrow> (c # fst (resolve_team_loop e m base cs), snd (resolve_team_loop e m base cs)))"

definition resolve_team_base_ptr_with ::
  "chain list \<Rightarrow> env \<Rightarrow> model \<Rightarrow> int option \<times> model" where
  "resolve_team_base_ptr_with cands e st =
     (case resolved_team_base st of
        Some b \<Rightarrow> (Some b, st)
      | None \<Rightarrow>
          (case base_addr (mem st) of
             None \<Rightarrow> (None, st)
           | Some base \<Rightarrow>
               if \<not> truthy (hproc (mem st)) then (None, st)
               else (case snd (resolve_team_loop e (mem st) base cands) of
                       Some team_base \<Rightarrow>
                         (Some team_base, st\<lparr>resolved_team_base := Some team_base\<rparr>)
                     | None \<Rightarrow> (None, st))))"

definition resolve_team_base_ptr :: "env \<Rightarrow> model \<Rightarrow> int option \<times> model" where
  "resolve_team_base_ptr = resolve_team_base_ptr_with TEAM_PTR_CHAINS"

text \<open>
  A candidate is accepted with an address when its chain computes that address and the
  address passes the validator of the table; it is rejected when it is accepted with no
  address (a read fails, or the validator says no).
\<close>

definition player_accepts :: "env \<Rightarrow> game_memory \<Rightarrow> int \<Rightarrow> chain \<Rightarrow> int \<Rightarrow> bool" where
  "player_accepts e m base c tb =
     (chain_address e m base c = Inr tb \<and> player_names_present e m tb = Inr True)"

definition player_rejects :: "env \<Rightarrow> game_memory \<Rightarrow> int \<Rightarrow> chain \<Rightarrow> bool" where
  "player_rejects e m base c =
     (case chain_address e m base c of
        Inl _ \<Rightarrow> True
      | Inr tb \<Rightarrow> player_names_present e m tb \<noteq> Inr True)"

definition team_accepts :: "env \<Rightarrow> game_memory \<Rightarrow> int \<Rightarrow> chain \<Rightarrow> int \<Rightarrow> bool" where
  "team_accepts e m base c tb =
     (chain_address e m base c = Inr tb \<and> team_name_plausible e m tb = Inr True)"

definition team_rejects :: "env \<Rightarrow> game_memory \<Rightarrow> int \<Rightarrow> chain \<Rightarrow> bool" where
  "team_rejects e m base c =
     (case chain_address e m base c of
        Inl _ \<Rightarrow> True
      | Inr tb \<Rightarrow> team_name_plausible e m tb \<noteq> Inr True)"


subsection \<open>Scanning the player table (\<open>_scan_all_players\<close>)\<close>

definition team_name_of :: "env \<Rightarrow> game_memory \<Rightarrow> int \<Rightarrow> pystr" where
  "team_name_of e m p_addr =
     (case read_uint64 e m (p_addr + OFF_TEAM_PTR) of
        Inl _ \<Rightarrow> lit ''Unknown''
      | Inr team_ptr \<Rightarrow>
          if team_ptr = 0 then lit ''Free Agents''
          else compose_team_name_from_ptr e m team_ptr)"

text \<open>
  One iteration of the loop: \<open>None\<close> when the iteration ends in \<open>continue\<close> (a read
  raised, or both names are empty), the player appended otherwise.
\<close>

definition scan_record :: "env \<Rightarrow> game_memory \<Rightarrow> int \<Rightarrow> int \<Rightarrow> player option" where
  "scan_record e m table_base i =
     (let p_addr = table_base + i * PLAYER_STRIDE
      in case bind_e (read_wstring e m (p_addr + OFF_LAST_NAME) NAME_MAX_CHARS) (\<lambda>lname.
              bind_e (read_wstring e m (p_addr + OFF_FIRST_NAME) NAME_MAX_CHARS) (\<lambda>fname.
              bind_e (read_uint32 e m (p_addr + OFF_FACE_ID)) (\<lambda>fid.
              Inr (strip e lname, strip e fname, fid)))) of
           Inl _ \<Rightarrow> None
         | Inr (lname, fname, fid) \<Rightarrow>
             if fname = [] \<and> lname = [] then None
             else Some \<lparr>index = i, first_name = fname, last_name = lname,
                        team = team_name_of e m p_addr, face_id = fid\<rparr>)"

fun scan_players_loop ::
  "env \<Rightarrow> game_memory \<Rightarrow> int \<Rightarrow> player list \<Rightarrow> int list \<Rightarrow> player list" where
  "scan_players_loop e m table_base players [] = players"
| "scan_players_loop e m table_base players (i # is) =
     (case scan_record e m table_base i of
        None \<Rightarrow> scan_players_loop e m table_base players is
      | Some p \<Rightarrow> scan_players_loop e m table_base (players @ [p]) is)"

text \<open>\<open>set("abcdefghijklmnopqrstuvwxyzABCDEFGHIJKLMNOPQRSTUVWXYZ -'")\<close>\<close>

definition allowed :: "nat set" where
  "allowed = set (lit ''abcdefghijklmnopqrstuvwxyzABCDEFGHIJKLMNOPQRSTUVWXYZ -'' @ [39])"

text \<open>\<open>sum(1 for p in players if any(ch not in allowed for ch in p.first_name + p.last_name))\<close>\<close>

definition junk_count :: "player list \<Rightarrow> nat" where
  "junk_count players =
     length (filter (\<lambda>p. list_ex (\<lambda>ch. ch \<notin> allowed) (first_name p @ last_name p)) players)"

text \<open>
  \<open>range(max_scan)\<close> is \<open>[0..max_scan - 1]\<close>.  The test \<open>junk > len(players) * 0.5\<close>
  compares an \<open>int\<close> with a float exactly, and the product is exact in binary64 for every
  length a list can have, so it is computed in the rationals.
\<close>

definition scan_all_players :: "env \<Rightarrow> model \<Rightarrow> int \<Rightarrow> player list \<times> model" where
  "scan_all_players e st max_scan =
     (if \<not> truthy (hproc (mem st)) \<or> base_addr (mem st) = None then ([], st)
      else case resolve_player_table_base e st of
        (None, st') \<Rightarrow> ([], st')
      | (Some table_base, st') \<Rightarrow>
          (let players = scan_players_loop e (mem st') table_base [] [0..max_scan - 1]
           in if players \<noteq> []
                 \<and> (of_nat (junk_count players) :: rat) > of_nat (length players) * (1 / 2)
              then ([], st') else (players, st')))"

subsection \<open>Field access (\<open>get_field_value\<close>, \<open>set_field_value\<close>)\<close>

text \<open>The statements of \<open>get_field_value\<close> after the table base is known.\<close>

definition get_field_body ::
  "env \<Rightarrow> game_memory \<Rightarrow> int \<Rightarrow> int \<Rightarrow> int \<Rightarrow> int \<Rightarrow> int \<Rightarrow> exn + int" where
  "get_field_body e m base player_index offset start_bit len =
     (let addr = base + player_index * PLAYER_STRIDE + offset;
          bits_needed = start_bit + len;
          bytes_needed = (bits_needed + 7) div 8
      in bind_e (read_bytes e m addr bytes_needed) (\<lambda>raw.
         bind_e (shr (from_bytes_little raw) start_bit) (\<lambda>val.
         bind_e (shl 1 len) (\<lambda>top.
         Inr (val AND (top - 1))))))"

definition get_field_value ::
  "env \<Rightarrow> model \<Rightarrow> int \<Rightarrow> int \<Rightarrow> int \<Rightarrow> int \<Rightarrow> int option \<times> model" where
  "get_field_value e st player_index offset start_bit len =
     (case open_process e (mem st) of
        (False, m) \<Rightarrow> (None, st\<lparr>mem := m\<rparr>)
      | (True, m) \<Rightarrow>
          (case resolve_player_table_base e (st\<lparr>mem := m\<rparr>) of
             (None, st') \<Rightarrow> (None, st')
           | (Some base, st') \<Rightarrow>
               (case get_field_body e (mem st') base player_index offset start_bit len of
                  Inl _ \<Rightarrow> (None, st')
                | Inr v \<Rightarrow> (Some v, st'))))"

text \<open>
  The statements of \<open>set_field_value\<close> after the table base is known; the result is the
  environment after the write.
\<close>

definition set_field_body ::
  "env \<Rightarrow> game_memory \<Rightarrow> int \<Rightarrow> int \<Rightarrow> int \<Rightarrow> int \<Rightarrow> int \<Rightarrow> int \<Rightarrow> exn + env" where
  "set_field_body e m base player_index offset start_bit len value0 =
     bind_e (shl 1 len) (\<lambda>top.
     let max_val = top - 1;
         val = max 0 (min max_val value0);
         addr = base + player_index * PLAYER_STRIDE + offset;
         bits_needed = start_bit + len;
         bytes_needed = (bits_needed + 7) div 8
     in bind_e (read_bytes e m addr bytes_needed) (\<lambda>data.
        let current = from_bytes_little data
        in bind_e (shl 1 len) (\<lambda>top.
           bind_e (shl (top - 1) start_bit) (\<lambda>mask.
           let current = current AND NOT mask
           in bind_e (shl val start_bit) (\<lambda>shifted.
              let current = current OR (shifted AND mask)
              in bind_e (to_bytes_little current bytes_needed) (\<lambda>new_bytes.
                 write_bytes e m addr new_bytes))))))"

definition set_field_value ::
  "env \<Rightarrow> model \<Rightarrow> int \<Rightarrow> int \<Rightarrow> int \<Rightarrow> int \<Rightarrow> int \<Rightarrow> bool \<times> model \<times> env" where
  "set_field_value e st player_index offset start_bit len value0 =
     (case open_process e (mem st) of
        (False, m) \<Rightarrow> (False, st\<lparr>mem := m\<rparr>, e)
      | (True, m) \<Rightarrow>
          (case resolve_player_table_base e (st\<lparr>mem := m\<rparr>) of
             (None, st') \<Rightarrow> (False, st', e)
           | (Some base, st') \<Rightarrow>
               (case set_field_body e (mem st') base player_index offset start_bit len value0 of
                  Inl _ \<Rightarrow> (False, st', e)
                | Inr e' \<Rightarrow> (True, st', e'))))"



text \<open>
  The two measures of a scan result: a record is junk when one of the characters of its
  names is outside the baseline set (what the code counts); the characters of all names
  and those of them outside the baseline set (what the specification counts).
\<close>

definition junk_record :: "player \<Rightarrow> bool" where
  "junk_record p = (\<exists>ch \<in> set (first_name p @ last_name p). ch \<notin> allowed)"

definition name_chars :: "player list \<Rightarrow> nat list" where
  "name_chars players = concat (map (\<lambda>p. first_name p @ last_name p) players)"

definition outside_chars :: "player list \<Rightarrow> nat list" where
  "outside_chars players = filter (\<lambda>ch. ch \<notin> allowed) (name_chars players)"


section \<open>Team name disambiguation (\<open>PlayerDataModel._dedupe_team_names\<close>)\<close>

text \<open>\<open>Counter(name for _, name in pairs)[name]\<close>: the number of occurrences.\<close>

definition counter :: "pystr list \<Rightarrow> pystr \<Rightarrow> nat" where
  "counter names n = length (filter (\<lambda>m. m = n) names)"

text \<open>\<open>f"{name} [{idx}]"\<close>\<close>

definition bracketed :: "pystr \<Rightarrow> int \<Rightarrow> pystr" where
  "bracketed name idx = name @ lit '' ['' @ str_int idx @ lit '']''"

text \<open>
  The loop of the source, with its two accumulators: \<open>seen\<close> (a \<open>defaultdict(int)\<close>,
  incremented and never read) and \<open>out\<close>.
\<close>

fun dedupe_loop ::
  "(pystr \<Rightarrow> nat) \<Rightarrow> (pystr \<Rightarrow> nat) \<Rightarrow> (int \<times> pystr) list \<Rightarrow> (int \<times> pystr) list
    \<Rightarrow> (int \<times> pystr) list" where
  "dedupe_loop counts seen out [] = out"
| "dedupe_loop counts seen out ((idx, name) # ps) =
     (if counts name > 1
      then dedupe_loop counts (seen(name := seen name + 1)) (out @ [(idx, bracketed name idx)]) ps
      else dedupe_loop counts seen (out @ [(idx, name)]) ps)"

definition dedupe_team_names :: "(int \<times> pystr) list \<Rightarrow> (int \<times> pystr) list" where
  "dedupe_team_names pairs =
     dedupe_loop (counter (map snd pairs)) (\<lambda>_. 0) [] pairs"

text \<open>
  The label the specification gives an entry: its name followed by its own slot index in
  brackets when the name occurs on more than one slot, the name itself otherwise.
\<close>

definition label_of :: "(int \<times> pystr) list \<Rightarrow> int \<times> pystr \<Rightarrow> pystr" where
  "label_of pairs p = (if counter (map snd pairs) (snd p) > 1 then bracketed (snd p) (fst p) else snd p)"


section \<open>The offsets reader (\<open>offsets_reader.restructure\<close>)\<close>

text \<open>
  The values \<open>json.loads\<close> produces.  A number is an \<open>int\<close> or a float; equal numbers are
  the same dictionary key and have the same truth value whichever they are, so one
  constructor holds both (the constants \<open>NaN\<close> and \<open>Infinity\<close>, which are not JSON, are
  left out).  An object is a \<open>dict\<close> with \<open>str\<close> keys, kept as the list of its
  items in insertion order.
\<close>

datatype json = JNull | JBool bool | JNum rat | JStr pystr | JArr "json list"
  | JObj "(pystr \<times> json) list"

text \<open>The truth value of a Python object (\<open>not offset_hex\<close>).\<close>

fun truthy_json :: "json \<Rightarrow> bool" where
  "truthy_json JNull = False"
| "truthy_json (JBool b) = b"
| "truthy_json (JNum r) = (r \<noteq> 0)"
| "truthy_json (JStr s) = (s \<noteq> [])"
| "truthy_json (JArr xs) = (xs \<noteq> [])"
| "truthy_json (JObj kvs) = (kvs \<noteq> [])"

text \<open>
  Dictionary keys: a list or a dict is not hashable (\<open>TypeError\<close>); \<open>True\<close> and \<open>False\<close>
  are the keys 1 and 0.
\<close>

fun hashable :: "json \<Rightarrow> bool" where
  "hashable (JArr xs) = False"
| "hashable (JObj kvs) = False"
| "hashable _ = True"

fun key_of :: "json \<Rightarrow> json" where
  "key_of (JBool b) = JNum (if b then 1 else 0)"
| "key_of k = k"

text \<open>\<open>d.get(k, default)\<close>\<close>

definition dict_get :: "(pystr \<times> json) list \<Rightarrow> pystr \<Rightarrow> json \<Rightarrow> json" where
  "dict_get kvs k dflt = (case map_of kvs k of None \<Rightarrow> dflt | Some v \<Rightarrow> v)"

text \<open>
  \<open>key.lower() == "base"\<close>.  Only the letters A to Z are lowered here: no character
  outside ASCII has a lower case made of the letters of "base".
\<close>

definition ascii_lower :: "nat \<Rightarrow> nat" where
  "ascii_lower c = (if 65 \<le> c \<and> c \<le> 90 then c + 32 else c)"

definition is_base :: "pystr \<Rightarrow> bool" where
  "is_base key = (map ascii_lower key = lit ''base'')"

text \<open>
  The entry built for a field:
  \<open>{"name": name, "length": length, "startBit": start_bit}\<close>.
\<close>

definition entry_of :: "(pystr \<times> json) list \<Rightarrow> json" where
  "entry_of fld =
     (let start_bit = dict_get fld (lit ''startBit'') (JNum 0);
          len = dict_get fld (lit ''length'') JNull;
          name = dict_get fld (lit ''name'') JNull
      in JObj [(lit ''name'', name), (lit ''length'', len), (lit ''startBit'', start_bit)])"

text \<open>
  \<open>cat_map\<close>: a dictionary from offsets to lists of entries, as the list of its items.
  \<open>cat_map.setdefault(offset_hex, []).append(entry)\<close>:
\<close>

type_synonym cat_map = "(json \<times> json list) list"

definition cat_insert :: "cat_map \<Rightarrow> json \<Rightarrow> json \<Rightarrow> exn + cat_map" where
  "cat_insert cm offset_hex entry =
     (if \<not> hashable offset_hex then Inl TypeError
      else if key_of offset_hex \<in> set (map (\<lambda>p. key_of (fst p)) cm)
      then Inr (map (\<lambda>p. if key_of (fst p) = key_of offset_hex then (fst p, snd p @ [entry]) else p) cm)
      else Inr (cm @ [(offset_hex, [entry])]))"

text \<open>
  The loop over the fields of a category.  \<open>field.get\<close> raises \<open>AttributeError\<close> when the
  element is not a dict.
\<close>

fun category_loop :: "cat_map \<Rightarrow> json list \<Rightarrow> exn + cat_map" where
  "category_loop cm [] = Inr cm"
| "category_loop cm (JObj fld # flds) =
     (let offset_hex = dict_get fld (lit ''offset'') JNull
      in if \<not> truthy_json offset_hex then category_loop cm flds
         else bind_e (cat_insert cm offset_hex (entry_of fld))
                (\<lambda>cm'. category_loop cm' flds))"
| "category_loop cm (_ # flds) = Inl AttributeError"

text \<open>A value of the result: the input's value as it is, or the map of a category.\<close>

datatype rvalue = Same json | Cat cat_map

text \<open>\<open>restructured[key] = v\<close>\<close>

definition dict_set :: "(pystr \<times> rvalue) list \<Rightarrow> pystr \<Rightarrow> rvalue \<Rightarrow> (pystr \<times> rvalue) list" where
  "dict_set d k v = AList.update k v d"

fun restructure_loop ::
  "(pystr \<times> rvalue) list \<Rightarrow> (pystr \<times> json) list \<Rightarrow> exn + (pystr \<times> rvalue) list" where
  "restructure_loop restructured [] = Inr restructured"
| "restructure_loop restructured ((key, v) # items) =
     (if is_base key then restructure_loop (dict_set restructured key (Same v)) items
      else case v of
        JArr flds \<Rightarrow>
          bind_e (category_loop [] flds)
            (\<lambda>cat. restructure_loop (dict_set restructured key (Cat cat)) items)
      | _ \<Rightarrow> restructure_loop (dict_set restructured key (Same v)) items)"

definition restructure :: "(pystr \<times> json) list \<Rightarrow> exn + (pystr \<times> rvalue) list" where
  "restructure offsets = restructure_loop [] offsets"

text \<open>
  The words of the claim: the offset of a field, the fields that are kept, the entries of
  the fields at one offset in their original order, and the list a map holds at an
  offset.
\<close>

definition offset_of :: "json \<Rightarrow> json" where
  "offset_of fld = (case fld of JObj kvs \<Rightarrow> dict_get kvs (lit ''offset'') JNull | _ \<Rightarrow> JNull)"

definition entries_at :: "json list \<Rightarrow> json \<Rightarrow> json list" where
  "entries_at flds k =
     map (\<lambda>f. case f of JObj kvs \<Rightarrow> entry_of kvs | _ \<Rightarrow> JNull)
       (filter (\<lambda>f. truthy_json (offset_of f) \<and> key_of (offset_of f) = key_of k) flds)"

definition cat_lookup :: "cat_map \<Rightarrow> json \<Rightarrow> json list option" where
  "cat_lookup cm k = map_of (map (\<lambda>p. (key_of (fst p), snd p)) cm) (key_of k)"

text \<open>
  The format the function expects: every element of a list-valued category is a field
  (a dict), and an offset that is not falsy can be a dictionary key.
\<close>

definition field_list :: "json list \<Rightarrow> bool" where
  "field_list flds =
     list_all (\<lambda>f. (case f of JObj kvs \<Rightarrow> True | _ \<Rightarrow> False)
                \<and> (truthy_json (offset_of f) \<longrightarrow> hashable (offset_of f))) flds"

definition offsets_format :: "(pystr \<times> json) list \<Rightarrow> bool" where
  "offsets_format offsets =
     (distinct (map fst offsets)
      \<and> list_all (\<lambda>(key, v). is_base key \<or> (case v of JArr flds \<Rightarrow> field_list flds | _ \<Rightarrow> True))
           offsets)"

text \<open>
  What the claim says of the result: a map groups the fields of a category by offset when
  its keys are pairwise different and the list at every offset is the list of the entries
  of the kept fields with that offset, in their original order (no list when there is no
  such field); a key of the input is restructured when its value is unchanged (the key is
  "base" in any case, or the value is not a list) or is such a map.
\<close>

definition grouped_by_offset :: "cat_map \<Rightarrow> json list \<Rightarrow> bool" where
  "grouped_by_offset cm flds =
     (distinct (map (\<lambda>p. key_of (fst p)) cm)
      \<and> (\<forall>x. cat_lookup cm x = (if entries_at flds x = [] then None else Some (entries_at flds x))))"

definition restructured_as :: "rvalue option \<Rightarrow> pystr \<Rightarrow> json \<Rightarrow> bool" where
  "restructured_as r key v =
     (if is_base key then r = Some (Same v)
      else case v of
        JArr flds \<Rightarrow> (\<exists>cm. r = Some (Cat cm) \<and> grouped_by_offset cm flds)
      | _ \<Rightarrow> r = Some (Same v))"


section \<open>Rating conversion helpers\<close>

subsection \<open>Python's numbers\<close>

text \<open>
  A \<open>float\<close> is an IEEE 754 binary64 value: a finite one, kept as the rational it
  denotes, an infinity or NaN.  The two zeros are one value here: no operation used below
  tells them apart (a division by either raises).  A number is an \<open>int\<close> or a \<open>float\<close>.
\<close>

datatype pyfloat = Finite rat | PosInf | NegInf | NaN

datatype pynum = PInt int | PFloat pyfloat

text \<open>Rounding to the nearest integer, a tie to the even one: \<open>round(x)\<close> of a float.\<close>

definition round_half_even :: "rat \<Rightarrow> int" where
  "round_half_even x =
     (let f = \<lfloor>x\<rfloor>; d = x - of_int f
      in if d < 1 / 2 then f else if 1 / 2 < d then f + 1 else if even f then f else f + 1)"

text \<open>
  The binary64 value nearest to a rational, a tie to the even significand, with the
  exponent unbounded above: \<open>ilog2 x\<close> is the exponent of \<open>x > 0\<close> (the integer part of its
  binary logarithm), a significand has 53 bits, and the least exponent is \<open>- 1022\<close>
  (below it the values are the multiples of \<open>2 ^ - 1074\<close>).
\<close>

definition ilog2 :: "rat \<Rightarrow> int" where
  "ilog2 x = (if 1 \<le> x then bitlen \<lfloor>x\<rfloor> - 1 else - bitlen (\<lceil>1 / x\<rceil> - 1))"

definition fl64 :: "rat \<Rightarrow> rat" where
  "fl64 x =
     (if x = 0 then 0
      else let e = max (ilog2 \<bar>x\<bar>) (- 1022); ulp = 2 powi (e - 52)
           in of_int (round_half_even (x / ulp)) * ulp)"

text \<open>The result of a float operation whose exact value is \<open>x\<close>: it overflows to an infinity.\<close>

definition round64 :: "rat \<Rightarrow> pyfloat" where
  "round64 x =
     (let y = fl64 x
      in if 2 ^ 1024 \<le> y then PosInf else if y \<le> - (2 ^ 1024) then NegInf else Finite y)"

definition is_neg :: "pyfloat \<Rightarrow> bool" where
  "is_neg a = (case a of Finite x \<Rightarrow> x < 0 | NegInf \<Rightarrow> True | _ \<Rightarrow> False)"

definition fneg :: "pyfloat \<Rightarrow> pyfloat" where
  "fneg a = (case a of Finite x \<Rightarrow> Finite (- x) | PosInf \<Rightarrow> NegInf | NegInf \<Rightarrow> PosInf
             | NaN \<Rightarrow> NaN)"

fun fadd :: "pyfloat \<Rightarrow> pyfloat \<Rightarrow> pyfloat" where
  "fadd (Finite a) (Finite b) = round64 (a + b)"
| "fadd NaN b = NaN"
| "fadd a NaN = NaN"
| "fadd PosInf NegInf = NaN"
| "fadd NegInf PosInf = NaN"
| "fadd (Finite a) b = b"
| "fadd a b = a"

definition fsub :: "pyfloat \<Rightarrow> pyfloat \<Rightarrow> pyfloat" where
  "fsub a b = fadd a (fneg b)"

fun fmul :: "pyfloat \<Rightarrow> pyfloat \<Rightarrow> pyfloat" where
  "fmul (Finite a) (Finite b) = round64 (a * b)"
| "fmul NaN b = NaN"
| "fmul a NaN = NaN"
| "fmul a b = (if a = Finite 0 \<or> b = Finite 0 then NaN
               else if is_neg a = is_neg b then PosInf else NegInf)"

text \<open>\<open>a / b\<close> of two floats raises \<open>ZeroDivisionError\<close> when \<open>b\<close> is zero.\<close>

fun fdiv :: "pyfloat \<Rightarrow> pyfloat \<Rightarrow> exn + pyfloat" where
  "fdiv a (Finite b) =
     (if b = 0 then Inl ZeroDivisionError
      else case a of
        Finite x \<Rightarrow> Inr (round64 (x / b))
      | NaN \<Rightarrow> Inr NaN
      | _ \<Rightarrow> Inr (if is_neg a = (b < 0) then PosInf else NegInf))"
| "fdiv NaN b = Inr NaN"
| "fdiv a NaN = Inr NaN"
| "fdiv (Finite a) b = Inr (Finite 0)"
| "fdiv a b = Inr NaN"

text \<open>
  \<open>float(x)\<close>: an \<open>int\<close> is rounded to the nearest float, and raises \<open>OverflowError\<close>
  when that is not finite.
\<close>

definition as_float :: "pynum \<Rightarrow> exn + pyfloat" where
  "as_float a =
     (case a of
        PFloat f \<Rightarrow> Inr f
      | PInt i \<Rightarrow> (case round64 (of_int i) of Finite y \<Rightarrow> Inr (Finite y)
                                              | _ \<Rightarrow> Inl OverflowError))"

text \<open>
  The arithmetic of two numbers: exact on two \<open>int\<close>s, but for \<open>/\<close>, which gives the
  float nearest to the quotient (or raises); on a float and an \<open>int\<close> the \<open>int\<close> is
  converted first.
\<close>

definition num_add :: "pynum \<Rightarrow> pynum \<Rightarrow> exn + pynum" where
  "num_add a b =
     (case (a, b) of
        (PInt i, PInt j) \<Rightarrow> Inr (PInt (i + j))
      | _ \<Rightarrow> bind_e (as_float a) (\<lambda>x. bind_e (as_float b) (\<lambda>y. Inr (PFloat (fadd x y)))))"

definition num_sub :: "pynum \<Rightarrow> pynum \<Rightarrow> exn + pynum" where
  "num_sub a b =
     (case (a, b) of
        (PInt i, PInt j) \<Rightarrow> Inr (PInt (i - j))
      | _ \<Rightarrow> bind_e (as_float a) (\<lambda>x. bind_e (as_float b) (\<lambda>y. Inr (PFloat (fsub x y)))))"

definition num_mul :: "pynum \<Rightarrow> pynum \<Rightarrow> exn + pynum" where
  "num_mul a b =
     (case (a, b) of
        (PInt i, PInt j) \<Rightarrow> Inr (PInt (i * j))
      | _ \<Rightarrow> bind_e (as_float a) (\<lambda>x. bind_e (as_float b) (\<lambda>y. Inr (PFloat (fmul x y)))))"

definition num_truediv :: "pynum \<Rightarrow> pynum \<Rightarrow> exn + pynum" where
  "num_truediv a b =
     (case (a, b) of
        (PInt i, PInt j) \<Rightarrow>
          if j = 0 then Inl ZeroDivisionError
          else (case round64 (of_int i / of_int j) of
                  Finite y \<Rightarrow> Inr (PFloat (Finite y))
                | _ \<Rightarrow> Inl OverflowError)
      | _ \<Rightarrow> bind_e (as_float a) (\<lambda>x. bind_e (as_float b) (\<lambda>y.
               bind_e (fdiv x y) (\<lambda>q. Inr (PFloat q)))))"

text \<open>\<open>a < b\<close>: exact, also between an \<open>int\<close> and a float; false when either is NaN.\<close>

fun fless :: "pyfloat \<Rightarrow> pyfloat \<Rightarrow> bool" where
  "fless NaN b = False"
| "fless a NaN = False"
| "fless (Finite a) (Finite b) = (a < b)"
| "fless NegInf b = (b \<noteq> NegInf)"
| "fless a PosInf = (a \<noteq> PosInf)"
| "fless a b = False"

definition exact_val :: "pynum \<Rightarrow> pyfloat" where
  "exact_val a = (case a of PInt i \<Rightarrow> Finite (of_int i) | PFloat f \<Rightarrow> f)"

definition num_less :: "pynum \<Rightarrow> pynum \<Rightarrow> bool" where
  "num_less a b = fless (exact_val a) (exact_val b)"

text \<open>
  \<open>int(round(x))\<close>: an \<open>int\<close> is its own rounding; NaN raises \<open>ValueError\<close> and an
  infinity \<open>OverflowError\<close>.
\<close>

definition py_round :: "pynum \<Rightarrow> exn + int" where
  "py_round a =
     (case a of
        PInt i \<Rightarrow> Inr i
      | PFloat (Finite x) \<Rightarrow> Inr (round_half_even x)
      | PFloat NaN \<Rightarrow> Inl ValueError
      | PFloat _ \<Rightarrow> Inl OverflowError)"

subsection \<open>The conversions\<close>

definition RATING_MIN :: int where "RATING_MIN = 25"
definition RATING_MAX_TRUE :: int where "RATING_MAX_TRUE = 110"

datatype storage_mode = Direct | Scale

definition ATTR_STORAGE_MODE :: storage_mode where "ATTR_STORAGE_MODE = Scale"

text \<open>
  \<open>convert_raw_to_rating\<close>.  \<open>rating_value\<close> is the value of the variable \<open>rating\<close> when
  \<open>round\<close> is called, after the two clamps; \<open>1 << length\<close> is \<open>shl\<close> (an interpreter
  that runs out of memory on a long shift raises \<open>MemoryError\<close>, which the handler
  catches as well).
\<close>

definition clamp_num :: "pynum \<Rightarrow> pynum \<Rightarrow> pynum \<Rightarrow> pynum" where
  "clamp_num lo hi x = (if num_less x lo then lo else if num_less hi x then hi else x)"

definition rating_value :: "int \<Rightarrow> int \<Rightarrow> exn + pynum" where
  "rating_value raw max_raw =
     bind_e
       (if ATTR_STORAGE_MODE = Direct \<and> RATING_MAX_TRUE \<le> max_raw then Inr (PInt raw)
        else bind_e (num_truediv (PInt raw) (PInt max_raw)) (\<lambda>q.
             bind_e (num_mul q (PInt (RATING_MAX_TRUE - RATING_MIN))) (\<lambda>p.
               num_add (PInt RATING_MIN) p)))
       (\<lambda>rating. Inr (clamp_num (PInt RATING_MIN) (PInt RATING_MAX_TRUE) rating))"

definition convert_raw_to_rating_body :: "int \<Rightarrow> int \<Rightarrow> exn + int" where
  "convert_raw_to_rating_body raw len =
     bind_e (shl 1 len) (\<lambda>s.
       let max_raw = s - 1
       in if max_raw \<le> 0 then Inr RATING_MIN
          else bind_e (rating_value raw max_raw) py_round)"

definition convert_raw_to_rating :: "int \<Rightarrow> int \<Rightarrow> int" where
  "convert_raw_to_rating raw len =
     (case convert_raw_to_rating_body raw len of Inl _ \<Rightarrow> RATING_MIN | Inr v \<Rightarrow> v)"

text \<open>\<open>convert_rating_to_raw\<close>\<close>

definition convert_rating_to_raw_body :: "pynum \<Rightarrow> int \<Rightarrow> exn + int" where
  "convert_rating_to_raw_body rating len =
     bind_e (shl 1 len) (\<lambda>s.
       let max_raw = s - 1
       in if max_raw \<le> 0 then Inr 0
          else bind_e (as_float rating) (\<lambda>r0.
            let r = clamp_num (PInt RATING_MIN) (PInt RATING_MAX_TRUE) (PFloat r0)
            in bind_e
                 (if ATTR_STORAGE_MODE = Direct \<and> RATING_MAX_TRUE \<le> max_raw then py_round r
                  else bind_e (num_sub r (PInt RATING_MIN)) (\<lambda>d.
                       bind_e (num_truediv d (PInt (RATING_MAX_TRUE - RATING_MIN))) (\<lambda>fraction.
                       bind_e (num_mul (clamp_num (PFloat (Finite 0)) (PFloat (Finite 1)) fraction)
                                 (PInt max_raw))
                         py_round)))
                 (\<lambda>raw_val. Inr (if raw_val < 0 then 0
                                  else if max_raw < raw_val then max_raw else raw_val))))"

definition convert_rating_to_raw :: "pynum \<Rightarrow> int \<Rightarrow> int" where
  "convert_rating_to_raw rating len =
     (case convert_rating_to_raw_body rating len of Inl _ \<Rightarrow> 0 | Inr v \<Rightarrow> v)"

text \<open>
  \<open>convert_tendency_raw_to_rating\<close>, with \<open>tendency_value\<close> the value of \<open>rating\<close> when
  \<open>round\<close> is called.
\<close>

definition tendency_value :: "int \<Rightarrow> int \<Rightarrow> exn + pynum" where
  "tendency_value raw max_raw =
     bind_e (num_truediv (PInt raw) (PInt max_raw)) (\<lambda>q.
     bind_e (num_mul q (PFloat (Finite 100))) (\<lambda>rating.
       Inr (clamp_num (PFloat (Finite 0)) (PFloat (Finite 100)) rating)))"

definition convert_tendency_raw_to_rating_body :: "int \<Rightarrow> int \<Rightarrow> exn + int" where
  "convert_tendency_raw_to_rating_body raw len =
     bind_e (shl 1 len) (\<lambda>s.
       let max_raw = s - 1
       in if max_raw \<le> 0 then Inr 0
          else bind_e (tendency_value raw max_raw) py_round)"

definition convert_tendency_raw_to_rating :: "int \<Rightarrow> int \<Rightarrow> int" where
  "convert_tendency_raw_to_rating raw len =
     (case convert_tendency_raw_to_rating_body raw len of Inl _ \<Rightarrow> 0 | Inr v \<Rightarrow> v)"

text \<open>
  The words of the claims: the scaled value of exact arithmetic, and \<open>clamp\<close>.
\<close>

definition exact_rating :: "int \<Rightarrow> int \<Rightarrow> rat" where
  "exact_rating raw len = 25 + of_int raw / (2 ^ nat len - 1) * 85"

definition exact_tendency :: "int \<Rightarrow> int \<Rightarrow> rat" where
  "exact_tendency raw len = of_int raw / (2 ^ nat len - 1) * 100"

definition clamp_rating :: "rat \<Rightarrow> rat" where
  "clamp_rating r = (if r < 25 then 25 else if 110 < r then 110 else r)"


section \<open>Concrete environments\<close>

text \<open>
  A process that is attached (pid 4242, module base 0) with four readable and writable
  bytes \<open>0xFF\<close> at addresses 4096 to 4099, and a model whose player table base is
  already resolved to 3000, so that offset 0 of player 1 is address 4096.
\<close>

definition demo_env :: env where
  "demo_env = \<lparr>win32 = True, found_pid = Some 4242, opened_handle = Some 1,
     module_base = Some 0,
     cells = (\<lambda>a. if 4096 \<le> a \<and> a < 4100 then Some 255 else None),
     writable = (\<lambda>_. True),
     uc_isspace = (\<lambda>_. False), uc_isprintable = (\<lambda>_. False), uc_isalpha = (\<lambda>_. False)\<rparr>"

definition demo_state :: model where
  "demo_state = \<lparr>mem = \<lparr>pid = Some 4242, hproc = Some 1, base_addr = Some 0\<rparr>,
     resolved_player_base = Some 3000, resolved_team_base = None\<rparr>"

text \<open>The same machine with no game process running, and with none of its memory readable.\<close>

definition no_process_env :: env where
  "no_process_env = demo_env\<lparr>found_pid := None\<rparr>"

definition unreadable_env :: env where
  "unreadable_env = demo_env\<lparr>cells := (\<lambda>_. None)\<rparr>"

text \<open>The same machine with memory that can be read and not written.\<close>

definition readonly_env :: env where
  "readonly_env = demo_env\<lparr>writable := (\<lambda>_. False)\<rparr>"

text \<open>
  A team record at address 1000: the name "Bulls" at offset \<open>0x2D4\<close> and the bytes
  \<open>08 03\<close> at \<open>TEAM_YEAR_OFFSET\<close>, whose bits 3 to 9 hold the era value 97.
\<close>

definition bulls_env :: env where
  "bulls_env = demo_env\<lparr>cells := (\<lambda>a.
     if 1000 \<le> a \<and> a < 8000
     then Some (case map_of [(1724, 66), (1726, 117), (1728, 108), (1730, 108), (1732, 115),
                             (6658, 8), (6659, 3)] a of
                  Some b \<Rightarrow> b | None \<Rightarrow> 0)
     else None)\<rparr>"

text \<open>
  An attached process with nothing resolved yet.  In \<open>chain_env\<close> all memory is readable
  and zero, but for the pointer 65536 stored at \<open>PLAYER_TABLE_RVA\<close> and the name "Al" at
  address 65536: the first two player chains arrive at empty names, the third at "Al".
\<close>

definition open_state :: model where
  "open_state = \<lparr>mem = \<lparr>pid = Some 4242, hproc = Some 1, base_addr = Some 0\<rparr>,
     resolved_player_base = None, resolved_team_base = None\<rparr>"

definition chain_env :: env where
  "chain_env = demo_env\<lparr>cells := (\<lambda>a.
     Some (case map_of [(132458906, 1), (65536, 65), (65538, 108)] a of
             Some b \<Rightarrow> b | None \<Rightarrow> 0))\<rparr>"

text \<open>
  In \<open>static_env\<close> all memory is readable and zero, but for the name "Al" at
  \<open>PLAYER_TABLE_RVA\<close> itself and the name "Bulls" at offset \<open>0x2D4\<close> from there: every
  chain of either table arrives at empty names, and the address
  \<open>base_addr + PLAYER_TABLE_RVA\<close> passes the validator of either table.
\<close>

definition static_env :: env where
  "static_env = demo_env\<lparr>cells := (\<lambda>a.
     Some (case map_of [(132458904, 65), (132458906, 108),
                        (132459628, 66), (132459630, 117), (132459632, 108),
                        (132459634, 108), (132459636, 115)] a of
             Some b \<Rightarrow> b | None \<Rightarrow> 0))\<rparr>"

text \<open>
  Player tables at address 3000 (the base \<open>demo_state\<close> has resolved).  \<open>one_record_env\<close>
  holds one record, last name "Al$".  \<open>three_record_env\<close> holds three records with the
  last names "$$$$$", "Al" and "Bo".  All other bytes of the records are zero.
\<close>

definition one_record_env :: env where
  "one_record_env = demo_env\<lparr>cells := (\<lambda>a.
     if 3000 \<le> a \<and> a < 4096
     then Some (case map_of [(3000, 65), (3002, 108), (3004, 36)] a of
                  Some b \<Rightarrow> b | None \<Rightarrow> 0)
     else None)\<rparr>"

definition three_record_env :: env where
  "three_record_env = demo_env\<lparr>cells := (\<lambda>a.
     if 3000 \<le> a \<and> a < 6288
     then Some (case map_of [(3000, 36), (3002, 36), (3004, 36), (3006, 36), (3008, 36),
                             (4096, 65), (4098, 108), (5192, 66), (5194, 111)] a of
                  Some b \<Rightarrow> b | None \<Rightarrow> 0)
     else None)\<rparr>"


text \<open>
  An offsets dictionary: a "Base" section, the category "Attributes" with two fields at
  offset "0x39B", one at "0x39C" between them, one field with an empty offset and one
  with none, and a number under "Version".
\<close>

definition example_fields :: "json list" where
  "example_fields =
     [JObj [(lit ''name'', JStr (lit ''Pass Accuracy'')), (lit ''offset'', JStr (lit ''0x39B'')),
            (lit ''length'', JNum 8)],
      JObj [(lit ''name'', JStr (lit ''Hands'')), (lit ''offset'', JStr (lit ''0x39C'')),
            (lit ''startBit'', JNum 4), (lit ''length'', JNum 4)],
      JObj [(lit ''name'', JStr (lit ''Ball Control'')), (lit ''offset'', JStr (lit ''0x39B'')),
            (lit ''length'', JNum 8), (lit ''startBit'', JNum 0)],
      JObj [(lit ''name'', JStr (lit ''Padding'')), (lit ''offset'', JStr []),
            (lit ''length'', JNum 8)],
      JObj [(lit ''name'', JStr (lit ''Unplaced'')), (lit ''length'', JNum 8)]]"

definition example_offsets :: "(pystr \<times> json) list" where
  "example_offsets =
     [(lit ''Base'', JObj [(lit ''Player'', JStr (lit ''0x7E52998''))]),
      (lit ''Attributes'', JArr example_fields),
      (lit ''Version'', JNum 25)]"

section \<open>Verification: bytes, bits and the memory port\<close>





lemma from_bytes_little_nonneg: "0 \<le> from_bytes_little bs"
  by (induction bs) simp_all

lemma from_bytes_little_less: "from_bytes_little bs < 256 ^ length bs"
proof (induction bs)
  case Nil
  then show ?case by simp
next
  case (Cons b bs)
  have "uint b < 256" using uint_bounded [of b] by simp
  moreover have "from_bytes_little bs + 1 \<le> 256 ^ length bs" using Cons by simp
  then have "256 * (from_bytes_little bs + 1) \<le> 256 * 256 ^ length bs"
    by (rule mult_left_mono) simp
  ultimately show ?case by (simp add: algebra_simps)
qed




lemma bit_less_power:
  fixes v :: int
  assumes "0 \<le> v" "v < 2 ^ n" "bit v j"
  shows "j < n"
proof (rule ccontr)
  assume "\<not> j < n"
  then have "n \<le> j" by simp
  from assms(1,2) have "take_bit n v = v" by (simp add: take_bit_int_eq_self_iff)
  with assms(3) have "bit (take_bit n v) j" by simp
  with \<open>n \<le> j\<close> show False by (simp add: bit_take_bit_iff)
qed



lemma bind_e_Inr: "bind_e r f = Inr y \<longleftrightarrow> (\<exists>v. r = Inr v \<and> f v = Inr y)"
  by (cases r) (simp_all add: bind_e_def)



lemma write_bytes_Inr:
  "write_bytes e m addr data = Inr e' \<longleftrightarrow>
     hproc m \<noteq> None \<and> base_addr m \<noteq> None
     \<and> (\<forall>i < length data. cell e (addr mod 2 ^ 64 + int i) \<noteq> None
            \<and> writable e (addr mod 2 ^ 64 + int i))
     \<and> e' = e\<lparr>cells := (\<lambda>a.
              if addr mod 2 ^ 64 \<le> a \<and> a < addr mod 2 ^ 64 + int (length data)
              then Some (data ! nat (a - addr mod 2 ^ 64)) else cells e a)\<rparr>"
  by (auto simp: write_bytes_def list_all_iff)

text \<open>The bits of the word that \<open>set_field_value\<close> writes back.\<close>

lemma bit_field_update:
  fixes current val :: int
  shows "bit ((current AND NOT (push_bit s (mask l))) OR (push_bit s val AND push_bit s (mask l))) j
     \<longleftrightarrow> (if s \<le> j \<and> j < s + l then bit val (j - s) else bit current j)"
  by (auto simp: bit_or_iff bit_and_iff bit_not_iff bit_push_bit_iff bit_mask_iff)

lemma field_update_bounds:
  fixes current val :: int
  assumes "0 \<le> current" "current < 2 ^ N" "0 \<le> val" "s + l \<le> N"
  shows "0 \<le> (current AND NOT (push_bit s (mask l))) OR (push_bit s val AND push_bit s (mask l))"
    and "(current AND NOT (push_bit s (mask l))) OR (push_bit s val AND push_bit s (mask l)) < 2 ^ N"
proof -
  let ?new = "(current AND NOT (push_bit s (mask l))) OR (push_bit s val AND push_bit s (mask l))"
  have "take_bit N ?new = ?new"
  proof (rule bit_eqI)
    fix j
    show "bit (take_bit N ?new) j \<longleftrightarrow> bit ?new j"
    proof (cases "j < N")
      case True
      then show ?thesis by (simp only: bit_take_bit_iff simp_thms)
    next
      case False
      with assms(4) have "\<not> (s \<le> j \<and> j < s + l)" by simp
      moreover have "\<not> bit current j"
        using bit_less_power [OF assms(1,2), of j] False by blast
      ultimately have "\<not> bit ?new j" by (simp only: bit_field_update if_False simp_thms)
      with False show ?thesis by (simp only: bit_take_bit_iff simp_thms)
    qed
  qed
  then have "0 \<le> ?new \<and> ?new < 2 ^ N"
    by (metis take_bit_nonnegative take_bit_int_less_exp)
  then show "0 \<le> ?new" and "?new < 2 ^ N" by simp_all
qed







section \<open>Verification: pointer resolution\<close>

lemma player_candidate_accepts:
  "player_candidate e m base c = Inr (Some tb) \<longleftrightarrow>
     chain_address e m base c = Inr tb \<and> player_names_present e m tb = Inr True"
  by (cases "chain_address e m base c"; cases "player_names_present e m tb")
     (auto simp: player_candidate_def bind_e_def split: sum.splits if_splits)

lemma team_candidate_accepts:
  "team_candidate e m base c = Inr (Some tb) \<longleftrightarrow>
     chain_address e m base c = Inr tb \<and> team_name_plausible e m tb = Inr True"
  by (cases "chain_address e m base c"; cases "team_name_plausible e m tb")
     (auto simp: team_candidate_def bind_e_def split: sum.splits if_splits)

lemma player_fallback_accepts:
  "player_fallback e m base = Inr (Some fb) \<longleftrightarrow>
     fb = base + PLAYER_TABLE_RVA \<and> player_names_present e m (base + PLAYER_TABLE_RVA) = Inr True"
  by (cases "player_names_present e m (base + PLAYER_TABLE_RVA)")
     (auto simp: player_fallback_def bind_e_def Let_def split: if_splits)

lemma resolve_player_loop_accept:
  assumes "\<forall>d \<in> set pre. \<forall>b. player_candidate e m base d \<noteq> Inr (Some b)"
    and "player_candidate e m base c = Inr (Some tb)"
  shows "resolve_player_loop e m base (pre @ c # post) = (pre @ [c], Some tb)"
  using assms
proof (induction pre)
  case Nil
  then show ?case by simp
next
  case (Cons d pre)
  then have "resolve_player_loop e m base (pre @ c # post) = (pre @ [c], Some tb)" by simp
  moreover from Cons.prems have "\<forall>b. player_candidate e m base d \<noteq> Inr (Some b)" by simp
  ultimately show ?case by (auto split: sum.splits option.splits)
qed

lemma resolve_player_loop_reject:
  assumes "\<forall>d \<in> set cs. \<forall>b. player_candidate e m base d \<noteq> Inr (Some b)"
  shows "resolve_player_loop e m base cs = (cs, None)"
  using assms
proof (induction cs)
  case Nil
  then show ?case by simp
next
  case (Cons d cs)
  then have "resolve_player_loop e m base cs = (cs, None)" by simp
  moreover from Cons.prems have "\<forall>b. player_candidate e m base d \<noteq> Inr (Some b)" by simp
  ultimately show ?case by (auto split: sum.splits option.splits)
qed

lemma resolve_team_loop_accept:
  assumes "\<forall>d \<in> set pre. \<forall>b. team_candidate e m base d \<noteq> Inr (Some b)"
    and "team_candidate e m base c = Inr (Some tb)"
  shows "resolve_team_loop e m base (pre @ c # post) = (pre @ [c], Some tb)"
  using assms
proof (induction pre)
  case Nil
  then show ?case by simp
next
  case (Cons d pre)
  then have "resolve_team_loop e m base (pre @ c # post) = (pre @ [c], Some tb)" by simp
  moreover from Cons.prems have "\<forall>b. team_candidate e m base d \<noteq> Inr (Some b)" by simp
  ultimately show ?case by (auto split: sum.splits option.splits)
qed

lemma resolve_team_loop_reject:
  assumes "\<forall>d \<in> set cs. \<forall>b. team_candidate e m base d \<noteq> Inr (Some b)"
  shows "resolve_team_loop e m base cs = (cs, None)"
  using assms
proof (induction cs)
  case Nil
  then show ?case by simp
next
  case (Cons d cs)
  then have "resolve_team_loop e m base cs = (cs, None)" by simp
  moreover from Cons.prems have "\<forall>b. team_candidate e m base d \<noteq> Inr (Some b)" by simp
  ultimately show ?case by (auto split: sum.splits option.splits)
qed


lemma player_rejects_iff:
  "player_rejects e m base c \<longleftrightarrow> (\<forall>b. player_candidate e m base c \<noteq> Inr (Some b))"
  by (cases "chain_address e m base c")
     (auto simp: player_rejects_def player_candidate_accepts)

lemma team_rejects_iff:
  "team_rejects e m base c \<longleftrightarrow> (\<forall>b. team_candidate e m base c \<noteq> Inr (Some b))"
  by (cases "chain_address e m base c")
     (auto simp: team_rejects_def team_candidate_accepts)

lemma resolve_player_accepted:
  assumes "resolved_player_base st = None" "truthy (hproc (mem st))" "base_addr (mem st) = Some base"
    and "\<forall>d \<in> set pre. player_rejects e (mem st) base d"
    and "player_accepts e (mem st) base c tb"
  shows "resolve_player_loop e (mem st) base (pre @ c # post) = (pre @ [c], Some tb)"
    and "resolve_player_table_base_with (pre @ c # post) e st
          = (Some tb, st\<lparr>resolved_player_base := Some tb\<rparr>)"
proof -
  have "\<forall>d \<in> set pre. \<forall>b. player_candidate e (mem st) base d \<noteq> Inr (Some b)"
    and "player_candidate e (mem st) base c = Inr (Some tb)"
    using assms(4,5) player_rejects_iff [of e "mem st" base]
    by (simp_all add: player_candidate_accepts [of e "mem st" base c tb] player_accepts_def)
  then show l: "resolve_player_loop e (mem st) base (pre @ c # post) = (pre @ [c], Some tb)"
    by (rule resolve_player_loop_accept)
  with assms(1-3) show "resolve_player_table_base_with (pre @ c # post) e st
          = (Some tb, st\<lparr>resolved_player_base := Some tb\<rparr>)"
    by (simp add: resolve_player_table_base_with_def)
qed

lemma resolve_team_accepted:
  assumes "resolved_team_base st = None" "truthy (hproc (mem st))" "base_addr (mem st) = Some base"
    and "\<forall>d \<in> set pre. team_rejects e (mem st) base d"
    and "team_accepts e (mem st) base c tb"
  shows "resolve_team_loop e (mem st) base (pre @ c # post) = (pre @ [c], Some tb)"
    and "resolve_team_base_ptr_with (pre @ c # post) e st
          = (Some tb, st\<lparr>resolved_team_base := Some tb\<rparr>)"
proof -
  have "\<forall>d \<in> set pre. \<forall>b. team_candidate e (mem st) base d \<noteq> Inr (Some b)"
    and "team_candidate e (mem st) base c = Inr (Some tb)"
    using assms(4,5) team_rejects_iff [of e "mem st" base]
    by (simp_all add: team_candidate_accepts [of e "mem st" base c tb] team_accepts_def)
  then show l: "resolve_team_loop e (mem st) base (pre @ c # post) = (pre @ [c], Some tb)"
    by (rule resolve_team_loop_accept)
  with assms(1-3) show "resolve_team_base_ptr_with (pre @ c # post) e st
          = (Some tb, st\<lparr>resolved_team_base := Some tb\<rparr>)"
    by (simp add: resolve_team_base_ptr_with_def)
qed

lemma resolve_player_all_rejected:
  assumes "resolved_player_base st = None" "truthy (hproc (mem st))" "base_addr (mem st) = Some base"
    and a: "\<forall>d \<in> set cands. player_rejects e (mem st) base d"
  shows "resolve_player_loop e (mem st) base cands = (cands, None)"
    and "resolve_player_table_base_with cands e st
          = (if player_names_present e (mem st) (base + PLAYER_TABLE_RVA) = Inr True
             then (Some (base + PLAYER_TABLE_RVA),
                   st\<lparr>resolved_player_base := Some (base + PLAYER_TABLE_RVA)\<rparr>)
             else (None, st))"
proof -
  show l: "resolve_player_loop e (mem st) base cands = (cands, None)"
    using a player_rejects_iff [of e "mem st" base] by (intro resolve_player_loop_reject) simp
  show "resolve_player_table_base_with cands e st
          = (if player_names_present e (mem st) (base + PLAYER_TABLE_RVA) = Inr True
             then (Some (base + PLAYER_TABLE_RVA),
                   st\<lparr>resolved_player_base := Some (base + PLAYER_TABLE_RVA)\<rparr>)
             else (None, st))"
  proof (cases "player_names_present e (mem st) (base + PLAYER_TABLE_RVA) = Inr True")
    case True
    then have "player_fallback e (mem st) base = Inr (Some (base + PLAYER_TABLE_RVA))"
      by (simp add: player_fallback_accepts)
    with True l assms(1-3) show ?thesis by (simp add: resolve_player_table_base_with_def)
  next
    case False
    then have "\<forall>fb. player_fallback e (mem st) base \<noteq> Inr (Some fb)"
      by (simp add: player_fallback_accepts)
    with False l assms(1-3) show ?thesis
      by (auto simp: resolve_player_table_base_with_def split: sum.splits option.splits)
  qed
qed

lemma resolve_team_all_rejected:
  assumes "resolved_team_base st = None" "truthy (hproc (mem st))" "base_addr (mem st) = Some base"
    and a: "\<forall>d \<in> set cands. team_rejects e (mem st) base d"
  shows "resolve_team_loop e (mem st) base cands = (cands, None)"
    and "resolve_team_base_ptr_with cands e st = (None, st)"
proof -
  show l: "resolve_team_loop e (mem st) base cands = (cands, None)"
    using a team_rejects_iff [of e "mem st" base] by (intro resolve_team_loop_reject) simp
  with assms(1-3) show "resolve_team_base_ptr_with cands e st = (None, st)"
    by (simp add: resolve_team_base_ptr_with_def)
qed

text \<open>
  Claim C3, as the code has it.  With nothing cached and the process attached, both
  resolvers enter their candidates in list order; the first candidate whose address
  passes the validator is returned and cached, and the candidates entered are exactly
  those before it and itself, whatever follows it in the list.  When every candidate is
  rejected, the player resolver then tries \<open>base_addr + PLAYER_TABLE_RVA\<close> with the same
  validator and returns and caches it when it passes; the team resolver has no fallback
  and returns \<open>None\<close>.
\<close>

theorem resolvers_first_valid_candidate:
  assumes un: "resolved_player_base st = None" "resolved_team_base st = None"
    and op: "truthy (hproc (mem st))" "base_addr (mem st) = Some base"
  shows
    "((\<forall>d \<in> set pre. player_rejects e (mem st) base d) \<and> player_accepts e (mem st) base c tb \<longrightarrow>
        resolve_player_table_base_with (pre @ c # post) e st
          = (Some tb, st\<lparr>resolved_player_base := Some tb\<rparr>)
        \<and> fst (resolve_player_loop e (mem st) base (pre @ c # post)) = pre @ [c])
     \<and> ((\<forall>d \<in> set pre. team_rejects e (mem st) base d) \<and> team_accepts e (mem st) base c tb \<longrightarrow>
        resolve_team_base_ptr_with (pre @ c # post) e st
          = (Some tb, st\<lparr>resolved_team_base := Some tb\<rparr>)
        \<and> fst (resolve_team_loop e (mem st) base (pre @ c # post)) = pre @ [c])
     \<and> ((\<forall>d \<in> set cands. player_rejects e (mem st) base d) \<longrightarrow>
        fst (resolve_player_loop e (mem st) base cands) = cands
        \<and> resolve_player_table_base_with cands e st
          = (if player_names_present e (mem st) (base + PLAYER_TABLE_RVA) = Inr True
             then (Some (base + PLAYER_TABLE_RVA),
                   st\<lparr>resolved_player_base := Some (base + PLAYER_TABLE_RVA)\<rparr>)
             else (None, st)))
     \<and> ((\<forall>d \<in> set cands. team_rejects e (mem st) base d) \<longrightarrow>
        fst (resolve_team_loop e (mem st) base cands) = cands
        \<and> resolve_team_base_ptr_with cands e st = (None, st))"
  using resolve_player_accepted [OF un(1) op, of pre e c tb post]
    resolve_team_accepted [OF un(2) op, of pre e c tb post]
    resolve_player_all_rejected [OF un(1) op, of cands e]
    resolve_team_all_rejected [OF un(2) op, of cands e]
  by simp


lemmas chain_eval = chain_address_def read_uint64_def player_names_present_def
  team_name_plausible_def read_wstring_def read_bytes_def cell_def bind_e_def upt_rec
  high_surrogate_def low_surrogate_def strip_def isspace_def isprintable_def isalpha_def
  OFF_LAST_NAME_def OFF_FIRST_NAME_def NAME_MAX_CHARS_def TEAM_NAME_OFFSET_def
  TEAM_NAME_LENGTH_def PLAYER_TABLE_RVA_def Let_def

lemma open_state_facts:
  "resolved_player_base open_state = None" "resolved_team_base open_state = None"
  "truthy (hproc (mem open_state))" "base_addr (mem open_state) = Some 0"
  by (simp_all add: open_state_def truthy_def)

lemma chain_env_1: "player_rejects chain_env (mem open_state) 0 (132355120, 24, True)"
  by (simp add: player_rejects_def chain_env_def demo_env_def open_state_def chain_eval)

lemma chain_env_2: "player_rejects chain_env (mem open_state) 0 (115428936, 328, False)"
  by (simp add: player_rejects_def chain_env_def demo_env_def open_state_def chain_eval)

lemma chain_env_3: "player_accepts chain_env (mem open_state) 0 (PLAYER_TABLE_RVA, 0, False) 65536"
  by (simp add: player_accepts_def chain_env_def demo_env_def open_state_def chain_eval)

text \<open>
  The first two player chains are rejected and the third is accepted: its address is
  returned and cached, and the fourth chain is not entered.
\<close>

theorem resolvers_first_valid_candidate_witness:
  "resolve_player_table_base chain_env open_state
     = (Some 65536, open_state\<lparr>resolved_player_base := Some 65536\<rparr>)
   \<and> fst (resolve_player_loop chain_env (mem open_state) 0 PLAYER_PTR_CHAINS)
     = [(132355120, 24, True), (115428936, 328, False), (PLAYER_TABLE_RVA, 0, False)]"
  using resolvers_first_valid_candidate [OF open_state_facts,
      of "[(132355120, 24, True), (115428936, 328, False)]" chain_env
         "(PLAYER_TABLE_RVA, 0, False)" 65536 "[(132504968, 0, False)]"]
    chain_env_1 chain_env_2 chain_env_3
  by (simp add: resolve_player_table_base_def PLAYER_PTR_CHAINS_def)

lemma static_env_team_1: "team_rejects static_env (mem open_state) 0 (132355120, 136, True)"
  by (simp add: team_rejects_def static_env_def demo_env_def open_state_def chain_eval)

lemma static_env_team_2: "team_rejects static_env (mem open_state) 0 (132355120, 0, False)"
  by (simp add: team_rejects_def static_env_def demo_env_def open_state_def chain_eval)

lemma static_env_team_3: "team_rejects static_env (mem open_state) 0 (132119232, 0, False)"
  by (simp add: team_rejects_def static_env_def demo_env_def open_state_def chain_eval)

lemma static_env_player_1: "player_rejects static_env (mem open_state) 0 (132355120, 24, True)"
  by (simp add: player_rejects_def static_env_def demo_env_def open_state_def chain_eval)

lemma static_env_player_2: "player_rejects static_env (mem open_state) 0 (115428936, 328, False)"
  by (simp add: player_rejects_def static_env_def demo_env_def open_state_def chain_eval)

lemma static_env_player_3: "player_rejects static_env (mem open_state) 0 (132458904, 0, False)"
  by (simp add: player_rejects_def static_env_def demo_env_def open_state_def chain_eval)

lemma static_env_player_4: "player_rejects static_env (mem open_state) 0 (132504968, 0, False)"
  by (simp add: player_rejects_def static_env_def demo_env_def open_state_def chain_eval)

lemma static_env_team_name:
  "team_name_plausible static_env (mem open_state) (0 + PLAYER_TABLE_RVA) = Inr True"
  by (simp add: static_env_def demo_env_def open_state_def chain_eval)

lemma static_env_player_names:
  "player_names_present static_env (mem open_state) (0 + PLAYER_TABLE_RVA) = Inr True"
  by (simp add: static_env_def demo_env_def open_state_def chain_eval)

text \<open>
  The static address passes the validator of either table and every chain is rejected:
  the player resolver returns the static address, the team resolver reports failure
  without trying it.
\<close>

theorem team_resolver_no_fallback_counterexample:
  "team_name_plausible static_env (mem open_state) (0 + PLAYER_TABLE_RVA) = Inr True
   \<and> resolve_team_base_ptr static_env open_state = (None, open_state)
   \<and> player_names_present static_env (mem open_state) (0 + PLAYER_TABLE_RVA) = Inr True
   \<and> resolve_player_table_base static_env open_state
     = (Some PLAYER_TABLE_RVA, open_state\<lparr>resolved_player_base := Some PLAYER_TABLE_RVA\<rparr>)"
proof -
  have "resolve_team_base_ptr static_env open_state = (None, open_state)"
    unfolding resolve_team_base_ptr_def
    by (rule resolve_team_all_rejected(2) [OF open_state_facts(2-4)])
       (simp add: TEAM_PTR_CHAINS_def static_env_team_1 static_env_team_2 static_env_team_3)
  moreover have "resolve_player_table_base static_env open_state
     = (Some PLAYER_TABLE_RVA, open_state\<lparr>resolved_player_base := Some PLAYER_TABLE_RVA\<rparr>)"
    unfolding resolve_player_table_base_def
    using resolve_player_all_rejected(2) [OF open_state_facts(1,3,4), of PLAYER_PTR_CHAINS static_env]
      static_env_player_names
    by (simp add: PLAYER_PTR_CHAINS_def static_env_player_1 static_env_player_2
        static_env_player_3 static_env_player_4 PLAYER_TABLE_RVA_def)
  ultimately show ?thesis
    using static_env_team_name static_env_player_names by simp
qed


section \<open>Verification: field access\<close>






lemmas field_eval = set_field_value_def get_field_value_def open_process_def truthy_def
  resolve_player_table_base_def resolve_player_table_base_with_def set_field_body_def
  get_field_body_def shl_def shr_def bind_e_def PLAYER_STRIDE_def read_bytes_def cell_def Let_def
  upt_rec to_bytes_little_def write_bytes_def




section \<open>Verification: the player scan\<close>

lemma scan_players_loop_eq:
  "scan_players_loop e m tb players is = players @ List.map_filter (scan_record e m tb) is"
  by (induction "is" arbitrary: players) (auto simp: List.map_filter_simps split: option.splits)

lemma junk_count_eq: "junk_count players = length (filter junk_record players)"
proof -
  have "(\<lambda>p. list_ex (\<lambda>ch. ch \<notin> allowed) (first_name p @ last_name p)) = junk_record"
    by (rule ext) (simp only: junk_record_def list_ex_iff)
  then show ?thesis by (simp only: junk_count_def)
qed

text \<open>
  Claim C4, as the code has it.  With the process attached and the table base resolved,
  the players of the scan are the records of slots \<open>0\<close> to \<open>max_scan - 1\<close> that can be read
  and are not blank, in slot order.  When more than half of these records are junk (a
  name of the record has a character outside the baseline set) the result is the empty
  list; otherwise it is the full list.
\<close>

theorem scan_all_players_sanity:
  assumes "truthy (hproc (mem st))" "base_addr (mem st) \<noteq> None"
    and "resolve_player_table_base e st = (Some tb, st')"
  shows "scan_all_players e st max_scan =
     (let players = List.map_filter (scan_record e (mem st') tb) [0..max_scan - 1]
      in if 2 * length (filter junk_record players) > length players then [] else players, st')"
proof -
  define players where "players = List.map_filter (scan_record e (mem st') tb) [0..max_scan - 1]"
  define j where "j = length (filter junk_record players)"
  have "(of_nat j :: rat) > of_nat (length players) * (1 / 2) \<longleftrightarrow> 2 * j > length players"
  proof -
    have "(of_nat j :: rat) > of_nat (length players) * (1 / 2)
        \<longleftrightarrow> (of_nat (2 * j) :: rat) > of_nat (length players)"
      by (simp add: field_simps)
    also have "\<dots> \<longleftrightarrow> 2 * j > length players" by (simp only: of_nat_less_iff)
    finally show ?thesis .
  qed
  moreover have "2 * j > length players \<Longrightarrow> players \<noteq> []" by (auto simp: j_def)
  ultimately show ?thesis
    using assms
    by (auto simp: scan_all_players_def scan_players_loop_eq junk_count_eq Let_def
        players_def [symmetric] j_def [symmetric])
qed

lemma scan_all_players_unresolved:
  "\<not> truthy (hproc (mem st)) \<or> base_addr (mem st) = None \<Longrightarrow> scan_all_players e st n = ([], st)"
  "resolve_player_table_base e st = (None, st') \<Longrightarrow> fst (scan_all_players e st n) = []"
  by (auto simp: scan_all_players_def)


lemmas scan_eval = scan_record_def team_name_of_def read_uint64_def read_uint32_def
  read_wstring_def read_bytes_def cell_def bind_e_def upt_rec
  high_surrogate_def low_surrogate_def strip_def isspace_def
  OFF_LAST_NAME_def OFF_FIRST_NAME_def NAME_MAX_CHARS_def OFF_FACE_ID_def OFF_TEAM_PTR_def
  PLAYER_STRIDE_def Let_def lit_def demo_env_def demo_state_def

lemma demo_state_facts:
  "truthy (hproc (mem demo_state))" "base_addr (mem demo_state) \<noteq> None"
  "resolve_player_table_base e demo_state = (Some 3000, demo_state)"
  by (simp_all add: demo_state_def truthy_def resolve_player_table_base_def
      resolve_player_table_base_with_def)

lemma upto_0_0: "[0..0] = [0::int]" by (simp add: upto.simps)
lemma upto_0_2: "[0..2] = [0::int, 1, 2]" by (simp add: upto.simps)

lemma one_record_0:
  "scan_record one_record_env (mem demo_state) 3000 0
     = Some \<lparr>index = 0, first_name = [], last_name = lit ''Al$'',
              team = lit ''Free Agents'', face_id = 0\<rparr>"
  by (simp add: one_record_env_def scan_eval)

lemma three_record_0:
  "scan_record three_record_env (mem demo_state) 3000 0
     = Some \<lparr>index = 0, first_name = [], last_name = lit ''$$$$$'',
              team = lit ''Free Agents'', face_id = 0\<rparr>"
  by (simp add: three_record_env_def scan_eval)

lemma three_record_1:
  "scan_record three_record_env (mem demo_state) 3000 1
     = Some \<lparr>index = 1, first_name = [], last_name = lit ''Al'',
              team = lit ''Free Agents'', face_id = 0\<rparr>"
  by (simp add: three_record_env_def scan_eval)

lemma three_record_2:
  "scan_record three_record_env (mem demo_state) 3000 2
     = Some \<lparr>index = 2, first_name = [], last_name = lit ''Bo'',
              team = lit ''Free Agents'', face_id = 0\<rparr>"
  by (simp add: three_record_env_def scan_eval)

lemmas junk_eval = junk_record_def name_chars_def outside_chars_def allowed_def lit_def

text \<open>
  One junk record of three: the list is returned.  One junk record of one: the list is
  discarded.
\<close>

theorem scan_all_players_sanity_witness:
  "scan_all_players three_record_env demo_state 3 =
     ([\<lparr>index = 0, first_name = [], last_name = lit ''$$$$$'', team = lit ''Free Agents'', face_id = 0\<rparr>,
       \<lparr>index = 1, first_name = [], last_name = lit ''Al'', team = lit ''Free Agents'', face_id = 0\<rparr>,
       \<lparr>index = 2, first_name = [], last_name = lit ''Bo'', team = lit ''Free Agents'', face_id = 0\<rparr>],
      demo_state)
   \<and> scan_all_players one_record_env demo_state 1 = ([], demo_state)"
  using scan_all_players_sanity [OF demo_state_facts, of three_record_env 3]
    scan_all_players_sanity [OF demo_state_facts, of one_record_env 1]
  by (simp add: upto_0_0 upto_0_2 List.map_filter_simps one_record_0 three_record_0 three_record_1
      three_record_2 junk_eval)


text \<open>
  Counting characters does not decide the result.  In the one-record table one of three
  name characters is outside the baseline set, and the scan is discarded; in the
  three-record table five of nine are, and the three players are returned.
\<close>

theorem scan_all_players_character_counterexample:
  "scan_players_loop one_record_env (mem demo_state) 3000 [] [0..1 - 1]
     = [\<lparr>index = 0, first_name = [], last_name = lit ''Al$'', team = lit ''Free Agents'', face_id = 0\<rparr>]
   \<and> length (outside_chars [\<lparr>index = 0, first_name = [], last_name = lit ''Al$'',
          team = lit ''Free Agents'', face_id = 0\<rparr>]) = 1
   \<and> length (name_chars [\<lparr>index = 0, first_name = [], last_name = lit ''Al$'',
          team = lit ''Free Agents'', face_id = 0\<rparr>]) = 3
   \<and> fst (scan_all_players one_record_env demo_state 1) = []
   \<and> length (outside_chars (fst (scan_all_players three_record_env demo_state 3))) = 5
   \<and> length (name_chars (fst (scan_all_players three_record_env demo_state 3))) = 9
   \<and> length (fst (scan_all_players three_record_env demo_state 3)) = 3"
  by (simp add: scan_all_players_def demo_state_facts scan_players_loop_eq junk_count_eq
      upto_0_0 upto_0_2 List.map_filter_simps one_record_0 three_record_0 three_record_1
      three_record_2 junk_eval)


text \<open>
  A write that reaches \<open>write_bytes\<close> writes the whole span of the field, so one byte of
  the span that cannot be written makes the body raise.
\<close>

lemma set_field_body_write_fails:
  assumes "0 \<le> i" "i < (start_bit + len + 7) div 8"
    and "\<not> writable e ((base + player_index * PLAYER_STRIDE + offset) mod 2 ^ 64 + i)"
  shows "\<exists>y. set_field_body e m base player_index offset start_bit len v = Inl y"
proof (cases "set_field_body e m base player_index offset start_bit len v")
  case (Inl y)
  then show ?thesis by blast
next
  case (Inr e')
  then obtain cur dat where tb: "to_bytes_little cur ((start_bit + len + 7) div 8) = Inr dat"
    and wr: "write_bytes e m (base + player_index * PLAYER_STRIDE + offset) dat = Inr e'"
    unfolding set_field_body_def Let_def bind_e_Inr by blast
  from tb have len: "length dat = nat ((start_bit + len + 7) div 8)"
    by (auto simp: to_bytes_little_def split: if_splits)
  from assms(1,2) have "nat i < length dat" by (simp add: len)
  with wr have "writable e ((base + player_index * PLAYER_STRIDE + offset) mod 2 ^ 64 + int (nat i))"
    unfolding write_bytes_Inr by blast
  with assms(1,3) show ?thesis by simp
qed


text \<open>
  Claim C8.  \<open>get_field_value\<close> and \<open>set_field_value\<close> are total functions into
  \<open>int option\<close> and \<open>bool\<close>: every exception of their bodies is caught.  With the
  outcome of \<open>open_process\<close> and of the table resolution named, each failure gives the
  failure result: the process cannot be opened; the table base is not resolved; the read
  of the field's bytes raises; one of the bytes the field spans cannot be written.  A
  failed \<open>set_field_value\<close> leaves the process memory as it was.
\<close>

theorem field_access_failures:
  assumes op: "open_process e (mem st) = (opened, m)"
    and rs: "resolve_player_table_base e (st\<lparr>mem := m\<rparr>) = (b, st1)"
  shows "(\<not> opened \<longrightarrow>
            get_field_value e st player_index offset start_bit len = (None, st\<lparr>mem := m\<rparr>)
          \<and> set_field_value e st player_index offset start_bit len v = (False, st\<lparr>mem := m\<rparr>, e))
     \<and> (opened \<and> b = None \<longrightarrow>
            get_field_value e st player_index offset start_bit len = (None, st1)
          \<and> set_field_value e st player_index offset start_bit len v = (False, st1, e))
     \<and> (\<forall>base x. opened \<and> b = Some base
            \<and> read_bytes e (mem st1) (base + player_index * PLAYER_STRIDE + offset)
                 ((start_bit + len + 7) div 8) = Inl x \<longrightarrow>
            get_field_value e st player_index offset start_bit len = (None, st1)
          \<and> set_field_value e st player_index offset start_bit len v = (False, st1, e))
     \<and> (\<forall>base i. opened \<and> b = Some base
            \<and> 0 \<le> i \<and> i < (start_bit + len + 7) div 8
            \<and> \<not> writable e ((base + player_index * PLAYER_STRIDE + offset) mod 2 ^ 64 + i) \<longrightarrow>
            set_field_value e st player_index offset start_bit len v = (False, st1, e))"
proof (intro conjI impI allI)
  assume "\<not> opened"
  with op show "get_field_value e st player_index offset start_bit len = (None, st\<lparr>mem := m\<rparr>)"
    and "set_field_value e st player_index offset start_bit len v = (False, st\<lparr>mem := m\<rparr>, e)"
    by (simp_all add: get_field_value_def set_field_value_def)
next
  assume "opened \<and> b = None"
  with op rs show "get_field_value e st player_index offset start_bit len = (None, st1)"
    and "set_field_value e st player_index offset start_bit len v = (False, st1, e)"
    by (simp_all add: get_field_value_def set_field_value_def)
next
  fix base x
  assume a: "opened \<and> b = Some base
            \<and> read_bytes e (mem st1) (base + player_index * PLAYER_STRIDE + offset)
                 ((start_bit + len + 7) div 8) = Inl x"
  then have "\<exists>y. get_field_body e (mem st1) base player_index offset start_bit len = Inl y"
    by (simp add: get_field_body_def bind_e_def)
  with a op rs show "get_field_value e st player_index offset start_bit len = (None, st1)"
    by (auto simp: get_field_value_def)
  from a have "\<exists>y. set_field_body e (mem st1) base player_index offset start_bit len v = Inl y"
    by (cases "shl 1 len") (simp_all add: set_field_body_def bind_e_def)
  with a op rs show "set_field_value e st player_index offset start_bit len v = (False, st1, e)"
    by (auto simp: set_field_value_def)
next
  fix base i
  assume a: "opened \<and> b = Some base
            \<and> 0 \<le> i \<and> i < (start_bit + len + 7) div 8
            \<and> \<not> writable e ((base + player_index * PLAYER_STRIDE + offset) mod 2 ^ 64 + i)"
  then have "\<exists>y. set_field_body e (mem st1) base player_index offset start_bit len v = Inl y"
    by (intro set_field_body_write_fails [of i]) simp_all
  with a op rs show "set_field_value e st player_index offset start_bit len v = (False, st1, e)"
    by (auto simp: set_field_value_def)
qed

lemma unreadable_unresolved:
  "resolve_player_table_base unreadable_env (open_state\<lparr>mem := mem open_state\<rparr>) = (None, open_state)"
  by (simp add: resolve_player_table_base_def resolve_player_table_base_with_def
      PLAYER_PTR_CHAINS_def player_candidate_def player_fallback_def chain_eval
      open_state_def unreadable_env_def demo_env_def)

lemma readonly_get: "get_field_value readonly_env demo_state 1 0 3 7 = (Some 127, demo_state)"
  by (simp add: field_eval readonly_env_def demo_env_def demo_state_def)

text \<open>
  No process to attach to; a process in which no candidate for the table base can be
  read; a resolved table whose memory cannot be read; and memory that can be read (the
  field holds 127) but not written.
\<close>

theorem field_access_failures_witness:
  "get_field_value no_process_env demo_state 1 0 3 7
     = (None, demo_state\<lparr>mem := close (mem demo_state)\<rparr>)
   \<and> set_field_value no_process_env demo_state 1 0 3 7 5
     = (False, demo_state\<lparr>mem := close (mem demo_state)\<rparr>, no_process_env)
   \<and> get_field_value unreadable_env open_state 1 0 3 7 = (None, open_state)
   \<and> set_field_value unreadable_env open_state 1 0 3 7 5 = (False, open_state, unreadable_env)
   \<and> get_field_value unreadable_env demo_state 1 0 3 7 = (None, demo_state)
   \<and> set_field_value unreadable_env demo_state 1 0 3 7 5 = (False, demo_state, unreadable_env)
   \<and> get_field_value readonly_env demo_state 1 0 3 7 = (Some 127, demo_state)
   \<and> set_field_value readonly_env demo_state 1 0 3 7 5 = (False, demo_state, readonly_env)"
proof -
  have op1: "open_process no_process_env (mem demo_state) = (False, close (mem demo_state))"
    by (simp add: open_process_def no_process_env_def demo_env_def)
  obtain b st1 where rs1: "resolve_player_table_base no_process_env
      (demo_state\<lparr>mem := close (mem demo_state)\<rparr>) = (b, st1)"
    by (cases "resolve_player_table_base no_process_env
      (demo_state\<lparr>mem := close (mem demo_state)\<rparr>)") blast
  have op2: "open_process unreadable_env (mem demo_state) = (True, mem demo_state)"
    by (simp add: open_process_def unreadable_env_def demo_env_def demo_state_def truthy_def)
  have rs2: "resolve_player_table_base unreadable_env (demo_state\<lparr>mem := mem demo_state\<rparr>)
      = (Some 3000, demo_state)"
    by (simp add: resolve_player_table_base_def resolve_player_table_base_with_def demo_state_def)
  have rd: "read_bytes unreadable_env (mem demo_state) (3000 + 1 * PLAYER_STRIDE + 0)
      ((3 + 7 + 7) div 8) = Inl RuntimeError"
    by (simp add: read_bytes_def unreadable_env_def demo_env_def demo_state_def cell_def upt_rec)
  have op3: "open_process unreadable_env (mem open_state) = (True, mem open_state)"
    by (simp add: open_process_def unreadable_env_def demo_env_def open_state_def truthy_def)
  have op4: "open_process readonly_env (mem demo_state) = (True, mem demo_state)"
    by (simp add: open_process_def readonly_env_def demo_env_def demo_state_def truthy_def)
  have rs4: "resolve_player_table_base readonly_env (demo_state\<lparr>mem := mem demo_state\<rparr>)
      = (Some 3000, demo_state)"
    by (simp add: resolve_player_table_base_def resolve_player_table_base_with_def demo_state_def)
  have nw: "\<not> writable readonly_env ((3000 + 1 * PLAYER_STRIDE + 0) mod 2 ^ 64 + 0)"
    by (simp add: readonly_env_def)
  have s4: "set_field_value readonly_env demo_state 1 0 3 7 5 = (False, demo_state, readonly_env)"
    using field_access_failures [OF op4 rs4, of 1 0 3 7 5, THEN conjunct2, THEN conjunct2,
        THEN conjunct2, rule_format, of 3000 0] nw
    by simp
  from field_access_failures [OF op1 rs1, of 1 0 3 7 5]
       field_access_failures [OF op3 unreadable_unresolved, of 1 0 3 7 5]
       field_access_failures [OF op2 rs2, of 1 0 3 7 5] rd s4 readonly_get
  show ?thesis by simp
qed

section \<open>Verification: team name disambiguation\<close>

lemma dedupe_loop_map:
  "dedupe_loop counts seen out ps =
     out @ map (\<lambda>(idx, name). (idx, if counts name > 1 then bracketed name idx else name)) ps"
  by (induction ps arbitrary: seen out) auto

lemma undigits_digits10: "foldl (\<lambda>a d. 10 * a + (d - 48)) 0 (digits10 n) = n"
proof (induction n rule: digits10.induct)
  case (1 n)
  show ?case
  proof (cases "n < 10")
    case True
    then show ?thesis by (simp add: digits10.simps)
  next
    case False
    with 1 have "foldl (\<lambda>a d. 10 * a + (d - 48)) 0 (digits10 (n div 10)) = n div 10" by simp
    with False show ?thesis by (subst digits10.simps) simp
  qed
qed

lemma digits10_inj: "digits10 n = digits10 m \<Longrightarrow> n = m"
  by (metis undigits_digits10)

lemma digits10_range: "d \<in> set (digits10 n) \<Longrightarrow> 48 \<le> d \<and> d \<le> 57"
proof (induction n rule: digits10.induct)
  case (1 n)
  show ?case
  proof (cases "n < 10")
    case True
    with 1(2) show ?thesis by (simp add: digits10.simps)
  next
    case False
    with 1 show ?thesis by (subst (asm) (2) digits10.simps) (auto)
  qed
qed

lemma str_int_inj: "str_int i = str_int j \<Longrightarrow> i = j"
proof -
  assume eq: "str_int i = str_int j"
  have no45: "45 \<notin> set (digits10 n)" for n
    using digits10_range [of 45 n] by auto
  consider "i < 0" "j < 0" | "i < 0" "0 \<le> j" | "0 \<le> i" "j < 0" | "0 \<le> i" "0 \<le> j"
    by linarith
  then show ?thesis
  proof cases
    case 1
    with eq have "nat (- i) = nat (- j)" by (simp add: str_int_def digits10_inj)
    with 1 show ?thesis by simp
  next
    case 2
    with eq have "45 # digits10 (nat (- i)) = digits10 (nat j)"
      by (simp add: str_int_def)
    then have "45 \<in> set (digits10 (nat j))"
      by (metis list.set_intros(1))
    with no45 show ?thesis by blast
  next
    case 3
    with eq have "digits10 (nat i) = 45 # digits10 (nat (- j))"
      by (simp add: str_int_def)
    then have "45 \<in> set (digits10 (nat i))"
      by (metis list.set_intros(1))
    with no45 show ?thesis by blast
  next
    case 4
    with eq have "nat i = nat j" by (simp add: str_int_def digits10_inj)
    with 4 show ?thesis by simp
  qed
qed

lemma str_int_no_bracket: "91 \<notin> set (str_int i)"
  using digits10_range [of 91] by (auto simp: str_int_def)

lemma split_at_last:
  assumes "xs @ c # s = ys @ c # t" "c \<notin> set s" "c \<notin> set t"
  shows "xs = ys \<and> s = t"
proof -
  from assms(1) have "rev (xs @ c # s) = rev (ys @ c # t)" by simp
  then have eq: "rev s @ c # rev xs = rev t @ c # rev ys" by simp
  have "takeWhile (\<lambda>x. x \<noteq> c) (rev s @ c # rev xs) = rev s"
    using assms(2) by (subst takeWhile_append2) auto
  moreover have "takeWhile (\<lambda>x. x \<noteq> c) (rev t @ c # rev ys) = rev t"
    using assms(3) by (subst takeWhile_append2) auto
  ultimately have "rev s = rev t" using eq by simp
  then have "s = t" by simp
  with assms(1) show ?thesis by simp
qed

lemma bracketed_inj: "bracketed a i = bracketed b j \<Longrightarrow> a = b \<and> i = j"
proof -
  assume "bracketed a i = bracketed b j"
  then have "(a @ [32]) @ 91 # (str_int i @ [93]) = (b @ [32]) @ 91 # (str_int j @ [93])"
    by (simp add: bracketed_def lit_def)
  moreover have "91 \<notin> set (str_int i @ [93])" "91 \<notin> set (str_int j @ [93])"
    using str_int_no_bracket by simp_all
  ultimately have "a @ [32] = b @ [32] \<and> str_int i @ [93] = str_int j @ [93]"
    by (rule split_at_last)
  then show ?thesis using str_int_inj by simp
qed

lemma dedupe_team_names_eq:
  "dedupe_team_names pairs = map (\<lambda>p. (fst p, label_of pairs p)) pairs"
  by (simp add: dedupe_team_names_def dedupe_loop_map label_of_def case_prod_beta)

lemma counter_pos: "n \<in> set names \<Longrightarrow> counter names n \<ge> 1"
  by (induction names) (auto simp: counter_def)

lemma counter_one_unique:
  assumes "counter (map f xs) n = 1" "p \<in> set xs" "q \<in> set xs" "f p = n" "f q = n"
  shows "p = q"
proof (rule ccontr)
  assume "p \<noteq> q"
  let ?ys = "filter (\<lambda>x. f x = n) xs"
  have "{p, q} \<subseteq> set ?ys" using assms by simp
  then have "card {p, q} \<le> card (set ?ys)" by (intro card_mono) simp_all
  also have "\<dots> \<le> length ?ys" by (rule card_length)
  also have "length ?ys = counter (map f xs) n"
    by (simp add: counter_def filter_map comp_def)
  finally show False using \<open>p \<noteq> q\<close> assms(1) by simp
qed

lemma label_of_inj:
  assumes clash: "\<forall>p \<in> set pairs. \<forall>q \<in> set pairs.
        counter (map snd pairs) (snd p) = 1 \<and> counter (map snd pairs) (snd q) > 1
          \<longrightarrow> snd p \<noteq> bracketed (snd q) (fst q)"
    and p: "p \<in> set pairs" and q: "q \<in> set pairs"
    and eq: "label_of pairs p = label_of pairs q"
  shows "p = q"
proof -
  define c where "c = counter (map snd pairs)"
  have cp: "c (snd p) \<ge> 1" and cq: "c (snd q) \<ge> 1"
    using p q counter_pos [of "snd p" "map snd pairs"] counter_pos [of "snd q" "map snd pairs"]
    by (simp_all add: c_def)
  have lp: "label_of pairs p = (if c (snd p) > 1 then bracketed (snd p) (fst p) else snd p)"
    and lq: "label_of pairs q = (if c (snd q) > 1 then bracketed (snd q) (fst q) else snd q)"
    by (simp_all add: label_of_def c_def)
  have cl: "c (snd a) = 1 \<Longrightarrow> c (snd b) > 1 \<Longrightarrow> a \<in> set pairs \<Longrightarrow> b \<in> set pairs
      \<Longrightarrow> snd a \<noteq> bracketed (snd b) (fst b)" for a b
    using clash unfolding c_def by blast
  consider "c (snd p) > 1" "c (snd q) > 1" | "c (snd p) > 1" "c (snd q) = 1"
    | "c (snd p) = 1" "c (snd q) > 1" | "c (snd p) = 1" "c (snd q) = 1"
    using cp cq by linarith
  then show "p = q"
  proof cases
    case 1
    with eq lp lq have "bracketed (snd p) (fst p) = bracketed (snd q) (fst q)" by simp
    then have "snd p = snd q \<and> fst p = fst q" by (rule bracketed_inj)
    then show ?thesis by (simp add: prod_eq_iff)
  next
    case 2
    with eq lp lq have "bracketed (snd p) (fst p) = snd q" by simp
    with cl [of q p] 2 p q show ?thesis by simp
  next
    case 3
    with eq lp lq have "snd p = bracketed (snd q) (fst q)" by simp
    with cl [of p q] 3 p q show ?thesis by simp
  next
    case 4
    with eq lp lq have e: "snd q = snd p" by simp
    from 4 have "counter (map snd pairs) (snd p) = 1" by (simp add: c_def)
    from counter_one_unique [of snd pairs "snd p" p q, OF this p q refl e]
    show ?thesis .
  qed
qed

text \<open>
  Claim C5, as the code has it.  Every entry keeps its slot index and its position; a
  name that occurs on more than one slot is replaced by the name followed by its own slot
  index in brackets, and a name that occurs once is returned unmodified.  The labels of
  the result are pairwise different provided the slot indices are pairwise different and
  no name that occurs once already equals a colliding name followed by the bracketed
  index of one of its slots.
\<close>

theorem dedupe_team_names_labels:
  assumes idx: "distinct (map fst pairs)"
    and clash: "\<forall>p \<in> set pairs. \<forall>q \<in> set pairs.
        counter (map snd pairs) (snd p) = 1 \<and> counter (map snd pairs) (snd q) > 1
          \<longrightarrow> snd p \<noteq> bracketed (snd q) (fst q)"
  shows "dedupe_team_names pairs = map (\<lambda>p. (fst p, label_of pairs p)) pairs
     \<and> distinct (map snd (dedupe_team_names pairs))"
proof -
  have inj: "inj_on (label_of pairs) (set pairs)"
    using label_of_inj [OF clash] by (auto intro: inj_onI)
  have "distinct pairs" using idx by (rule distinct_map [THEN iffD1, THEN conjunct1])
  with inj have "distinct (map (label_of pairs) pairs)" by (simp add: distinct_map)
  then show ?thesis by (simp add: dedupe_team_names_eq comp_def)
qed

lemmas dedupe_eval = dedupe_team_names_def counter_def bracketed_def lit_def str_int_def
  digits10.simps label_of_def

text \<open>
  The example of the specification: slots 5 and 12 are both named "Classic Team", slot 3
  is the only "Bulls".
\<close>

theorem dedupe_team_names_labels_witness:
  "dedupe_team_names [(3, lit ''Bulls''), (5, lit ''Classic Team''), (12, lit ''Classic Team'')]
     = [(3, lit ''Bulls''), (5, lit ''Classic Team [5]''), (12, lit ''Classic Team [12]'')]
   \<and> distinct (map snd (dedupe_team_names
        [(3, lit ''Bulls''), (5, lit ''Classic Team''), (12, lit ''Classic Team'')]))"
  using dedupe_team_names_labels
    [of "[(3, lit ''Bulls''), (5, lit ''Classic Team''), (12, lit ''Classic Team'')]"]
  by (simp add: counter_def bracketed_def lit_def str_int_def digits10.simps label_of_def)

text \<open>
  Without the proviso the labels can coincide: a scan that finds "Classic Team" on slots
  5 and 12 and a group literally named "Classic Team [5]" on slot 7 yields the label
  "Classic Team [5]" twice.
\<close>

theorem dedupe_team_names_counterexample:
  "dedupe_team_names
      [(5, lit ''Classic Team''), (7, lit ''Classic Team [5]''), (12, lit ''Classic Team'')]
     = [(5, lit ''Classic Team [5]''), (7, lit ''Classic Team [5]''), (12, lit ''Classic Team [12]'')]
   \<and> \<not> distinct (map snd (dedupe_team_names
      [(5, lit ''Classic Team''), (7, lit ''Classic Team [5]''), (12, lit ''Classic Team'')]))"
  by (simp add: dedupe_eval)

section \<open>Verification: team labels\<close>

text \<open>
  The label never carries a year: \<open>read_uint16\<close> raises, the handler sets \<open>year_val\<close>
  to 0, and what is left is the base name, or "Unknown" when it is not printable.
\<close>

lemma compose_team_name_no_year:
  "compose_team_name_from_ptr e m p =
     (let base_name = (case read_wstring e m (p + OFF_TEAM_NAME) TEAM_NAME_LENGTH of
                         Inl _ \<Rightarrow> [] | Inr s \<Rightarrow> strip e s)
      in if is_printable_ascii e base_name then base_name else lit ''Unknown'')"
  by (simp add: compose_team_name_from_ptr_def read_uint16_def Let_def)

lemmas string_eval = read_wstring_def read_bytes_def cell_def bind_e_def upt_rec
  high_surrogate_def low_surrogate_def strip_def isspace_def isprintable_def isalpha_def
  is_printable_ascii_def lit_def Let_def

text \<open>
  Claim C6 at a team whose era bit field holds 97: the two bytes at the year offset can be
  read and decode to 97, \<open>_format_historic_year\<close> turns 97 into "96-97", and the composed
  label is "Bulls" without it.
\<close>

theorem compose_team_name_era_dropped:
  "read_bytes bulls_env (mem demo_state) (1000 + TEAM_YEAR_OFFSET) 2 = Inr [8, 3]
   \<and> drop_bit 3 (from_bytes_little [8, 3]) AND 127 = 97
   \<and> format_historic_year 97 = lit ''96-97''
   \<and> compose_team_name_from_ptr bulls_env (mem demo_state) 1000 = lit ''Bulls''"
  apply (intro conjI)
     apply (simp add: bulls_env_def demo_env_def demo_state_def TEAM_YEAR_OFFSET_def read_bytes_def cell_def upt_rec)
    apply simp
   apply (simp add: format_historic_year_def two_digits_def lit_def)
  apply (simp add: compose_team_name_no_year bulls_env_def demo_env_def demo_state_def
      OFF_TEAM_NAME_def TEAM_NAME_LENGTH_def string_eval)
  done


section \<open>Verification: the offsets reader\<close>

lemma cat_insert_Inr: "hashable k \<Longrightarrow> \<exists>cm'. cat_insert cm k entry = Inr cm'"
  by (simp add: cat_insert_def)

lemma cat_lookup_append:
  "cat_lookup (cm @ [(k, es)]) x =
     (case cat_lookup cm x of Some v \<Rightarrow> Some v
      | None \<Rightarrow> if key_of k = key_of x then Some es else None)"
  by (auto simp: cat_lookup_def map_add_def split: option.splits)

lemma cat_lookup_None_iff:
  "cat_lookup cm x = None \<longleftrightarrow> key_of x \<notin> set (map (\<lambda>p. key_of (fst p)) cm)"
  by (auto simp: cat_lookup_def map_of_eq_None_iff image_iff)

lemma cat_lookup_map_update:
  "cat_lookup (map (\<lambda>p. if key_of (fst p) = key_of k then (fst p, snd p @ [entry]) else p) cm) x
     = (if key_of x = key_of k then map_option (\<lambda>es. es @ [entry]) (cat_lookup cm x)
        else cat_lookup cm x)"
  by (induction cm) (auto simp: cat_lookup_def)

lemma cat_insert_lookup:
  assumes "cat_insert cm k entry = Inr cm'"
  shows "cat_lookup cm' x =
     (if key_of x = key_of k
      then Some ((case cat_lookup cm x of None \<Rightarrow> [] | Some es \<Rightarrow> es) @ [entry])
      else cat_lookup cm x)"
proof (cases "key_of k \<in> set (map (\<lambda>p. key_of (fst p)) cm)")
  case True
  with assms have cm': "cm' = map (\<lambda>p. if key_of (fst p) = key_of k then (fst p, snd p @ [entry]) else p) cm"
    by (simp add: cat_insert_def split: if_splits)
  from True have "cat_lookup cm k \<noteq> None" by (simp add: cat_lookup_None_iff)
  then obtain es where es: "cat_lookup cm k = Some es" by blast
  have same: "key_of x = key_of k \<Longrightarrow> cat_lookup cm x = cat_lookup cm k"
    by (simp add: cat_lookup_def)
  show ?thesis
    using es same by (auto simp: cm' cat_lookup_map_update)
next
  case False
  with assms have cm': "cm' = cm @ [(k, [entry])]"
    by (simp add: cat_insert_def split: if_splits)
  from False have none: "cat_lookup cm k = None" by (simp add: cat_lookup_None_iff)
  have same: "key_of x = key_of k \<Longrightarrow> cat_lookup cm x = cat_lookup cm k"
    by (simp add: cat_lookup_def)
  show ?thesis
    using none same by (auto simp: cm' cat_lookup_append split: option.splits)
qed

lemma cat_insert_distinct:
  assumes "cat_insert cm k entry = Inr cm'" "distinct (map (\<lambda>p. key_of (fst p)) cm)"
  shows "distinct (map (\<lambda>p. key_of (fst p)) cm')"
proof (cases "key_of k \<in> set (map (\<lambda>p. key_of (fst p)) cm)")
  case True
  with assms(1) have cm': "cm' = map (\<lambda>p. if key_of (fst p) = key_of k then (fst p, snd p @ [entry]) else p) cm"
    by (simp add: cat_insert_def split: if_splits)
  have "map (\<lambda>p. key_of (fst p)) cm' = map (\<lambda>p. key_of (fst p)) cm"
    unfolding cm' by (induction cm) auto
  with assms(2) show ?thesis by simp
next
  case False
  with assms(1) have cm': "cm' = cm @ [(k, [entry])]"
    by (simp add: cat_insert_def split: if_splits)
  with False assms(2) show ?thesis by auto
qed


lemma entries_at_Cons:
  "entries_at (JObj kvs # flds) x =
     (if truthy_json (dict_get kvs (lit ''offset'') JNull)
         \<and> key_of (dict_get kvs (lit ''offset'') JNull) = key_of x
      then entry_of kvs # entries_at flds x else entries_at flds x)"
  by (simp add: entries_at_def offset_of_def)

lemma category_loop_spec:
  assumes "field_list flds" "distinct (map (\<lambda>p. key_of (fst p)) cm0)"
  shows "\<exists>cm. category_loop cm0 flds = Inr cm
      \<and> distinct (map (\<lambda>p. key_of (fst p)) cm)
      \<and> (\<forall>x. cat_lookup cm x =
            (case cat_lookup cm0 x of
               None \<Rightarrow> if entries_at flds x = [] then None else Some (entries_at flds x)
             | Some es \<Rightarrow> Some (es @ entries_at flds x)))"
  using assms
proof (induction flds arbitrary: cm0)
  case Nil
  then show ?case by (auto simp: entries_at_def split: option.splits)
next
  case (Cons f flds)
  from Cons.prems(1) obtain kvs where f: "f = JObj kvs"
    by (cases f) (simp_all add: field_list_def)
  define off where "off = dict_get kvs (lit ''offset'') JNull"
  from Cons.prems(1) have rest: "field_list flds"
    and h: "truthy_json off \<Longrightarrow> hashable off"
    by (simp_all add: field_list_def f off_def offset_of_def)
  show ?case
  proof (cases "truthy_json off")
    case False
    then have e1: "category_loop cm0 (f # flds) = category_loop cm0 flds"
      and e2: "\<And>x. entries_at (f # flds) x = entries_at flds x"
      by (simp_all add: f off_def entries_at_Cons)
    show ?thesis unfolding e1 e2 by (rule Cons.IH [OF rest Cons.prems(2)])
  next
    case True
    with h obtain cm1 where ins: "cat_insert cm0 off (entry_of kvs) = Inr cm1"
      using cat_insert_Inr by blast
    have d1: "distinct (map (\<lambda>p. key_of (fst p)) cm1)"
      using ins Cons.prems(2) by (rule cat_insert_distinct)
    from Cons.IH [OF rest d1] obtain cm where
      cm: "category_loop cm1 flds = Inr cm" "distinct (map (\<lambda>p. key_of (fst p)) cm)"
      and lk: "\<And>x. cat_lookup cm x =
            (case cat_lookup cm1 x of
               None \<Rightarrow> if entries_at flds x = [] then None else Some (entries_at flds x)
             | Some es \<Rightarrow> Some (es @ entries_at flds x))"
      by blast
    have run: "category_loop cm0 (f # flds) = Inr cm"
      using True ins cm(1) by (simp add: f off_def [symmetric] bind_e_def)
    have "cat_lookup cm x =
            (case cat_lookup cm0 x of
               None \<Rightarrow> if entries_at (f # flds) x = [] then None
                        else Some (entries_at (f # flds) x)
             | Some es \<Rightarrow> Some (es @ entries_at (f # flds) x))" for x
    proof (cases "key_of x = key_of off")
      case same: True
      then have "cat_lookup cm1 x
          = Some ((case cat_lookup cm0 x of None \<Rightarrow> [] | Some es \<Rightarrow> es) @ [entry_of kvs])"
        by (simp add: cat_insert_lookup [OF ins])
      moreover have "entries_at (f # flds) x = entry_of kvs # entries_at flds x"
        using True same by (simp add: f entries_at_Cons off_def)
      ultimately show ?thesis by (simp add: lk split: option.splits cong: option.case_cong)
    next
      case diff: False
      then have "cat_lookup cm1 x = cat_lookup cm0 x"
        by (simp add: cat_insert_lookup [OF ins])
      moreover have "entries_at (f # flds) x = entries_at flds x"
        using diff by (auto simp: f entries_at_Cons off_def)
      ultimately show ?thesis by (simp add: lk cong: option.case_cong)
    qed
    with run cm(2) show ?thesis by blast
  qed
qed

corollary category_loop_empty:
  assumes "field_list flds"
  shows "\<exists>cm. category_loop [] flds = Inr cm
      \<and> distinct (map (\<lambda>p. key_of (fst p)) cm)
      \<and> (\<forall>x. cat_lookup cm x =
            (if entries_at flds x = [] then None else Some (entries_at flds x)))"
  using category_loop_spec [OF assms, of "[]"] by (simp add: cat_lookup_def)


lemma restructure_step:
  assumes "is_base key \<or> (case v of JArr flds \<Rightarrow> field_list flds | _ \<Rightarrow> True)"
  shows "\<exists>rv. restructured_as (Some rv) key v
      \<and> restructure_loop acc ((key, v) # items) = restructure_loop (dict_set acc key rv) items"
proof (cases "is_base key")
  case True
  then show ?thesis by (auto simp: restructured_as_def)
next
  case False
  show ?thesis
  proof (cases v)
    case (JArr flds)
    with False assms have "field_list flds" by simp
    from category_loop_empty [OF this] obtain cm where
      "category_loop [] flds = Inr cm" "grouped_by_offset cm flds"
      by (auto simp: grouped_by_offset_def)
    with False JArr show ?thesis
      by (auto simp: restructured_as_def bind_e_def)
  qed (use False in \<open>auto simp: restructured_as_def\<close>)
qed

lemma restructure_loop_spec:
  assumes "list_all (\<lambda>(key, v). is_base key \<or> (case v of JArr flds \<Rightarrow> field_list flds | _ \<Rightarrow> True)) items"
    and "distinct (map fst items)"
    and "set (map fst items) \<inter> set (map fst acc) = {}"
  shows "\<exists>res. restructure_loop acc items = Inr res
      \<and> map fst res = map fst acc @ map fst items
      \<and> (\<forall>k. k \<notin> set (map fst items) \<longrightarrow> map_of res k = map_of acc k)
      \<and> (\<forall>(key, v) \<in> set items. restructured_as (map_of res key) key v)"
  using assms
proof (induction items arbitrary: acc)
  case Nil
  then show ?case by simp
next
  case (Cons kv items)
  obtain key v where kv: "kv = (key, v)" by (cases kv)
  from Cons.prems(1) have ok: "is_base key \<or> (case v of JArr flds \<Rightarrow> field_list flds | _ \<Rightarrow> True)"
    and rest: "list_all (\<lambda>(key, v). is_base key \<or> (case v of JArr flds \<Rightarrow> field_list flds | _ \<Rightarrow> True)) items"
    by (simp_all add: kv)
  from restructure_step [OF ok] obtain rv where
    rv: "restructured_as (Some rv) key v"
    and step: "restructure_loop acc ((key, v) # items) = restructure_loop (dict_set acc key rv) items"
    by blast
  define acc' where "acc' = dict_set acc key rv"
  from Cons.prems(2,3) have fresh: "key \<notin> set (map fst acc)" "key \<notin> set (map fst items)"
    and d: "distinct (map fst items)"
    by (auto simp: kv)
  have keys': "map fst acc' = map fst acc @ [key]"
    using fresh(1) by (simp add: acc'_def dict_set_def update_keys)
  have mo': "map_of acc' = (map_of acc)(key \<mapsto> rv)"
    by (simp add: acc'_def dict_set_def update_conv')
  have disj: "set (map fst items) \<inter> set (map fst acc') = {}"
    using Cons.prems(3) fresh(2) by (auto simp: keys' kv)
  from Cons.IH [OF rest d disj] obtain res where
    r: "restructure_loop acc' items = Inr res"
    and k: "map fst res = map fst acc' @ map fst items"
    and o: "\<And>k. k \<notin> set (map fst items) \<Longrightarrow> map_of res k = map_of acc' k"
    and p: "\<forall>(key, v) \<in> set items. restructured_as (map_of res key) key v"
    by blast
  have "restructure_loop acc (kv # items) = Inr res"
    using r step by (simp add: kv acc'_def)
  moreover have "map fst res = map fst acc @ map fst (kv # items)"
    by (simp add: k keys' kv)
  moreover have "\<forall>k. k \<notin> set (map fst (kv # items)) \<longrightarrow> map_of res k = map_of acc k"
    using o by (auto simp: mo' kv)
  moreover have "restructured_as (map_of res key) key v"
    using o [OF fresh(2)] rv by (simp add: mo')
  ultimately show ?case using p by (auto simp: kv)
qed

text \<open>
  Claim C9.  For every offsets dictionary of the format the function expects (the fields
  of a list-valued category are dicts, and an offset that is not falsy is hashable),
  \<open>restructure\<close> returns a dictionary with the keys of the input in their order, in which
  a key that is "base" in any case keeps its value unchanged, a list-valued category is
  replaced by a map from the offsets to the lists of the entries of its fields in their
  original order (fields with the same offset under one key), a field whose offset is
  missing or falsy appears nowhere, and every other value is copied.
\<close>

theorem restructure_groups_by_offset:
  assumes "offsets_format offsets"
  shows "\<exists>res. restructure offsets = Inr res
      \<and> map fst res = map fst offsets
      \<and> (\<forall>(key, v) \<in> set offsets. restructured_as (map_of res key) key v)"
  using restructure_loop_spec [of offsets "[]"] assms
  by (auto simp: restructure_def offsets_format_def)

lemma example_fields_list: "field_list example_fields"
  by (simp add: field_list_def example_fields_def offset_of_def dict_get_def lit_def)

lemma example_fields_loop:
  "category_loop [] example_fields =
     Inr [(JStr (lit ''0x39B''),
            [JObj [(lit ''name'', JStr (lit ''Pass Accuracy'')), (lit ''length'', JNum 8),
                   (lit ''startBit'', JNum 0)],
             JObj [(lit ''name'', JStr (lit ''Ball Control'')), (lit ''length'', JNum 8),
                   (lit ''startBit'', JNum 0)]]),
          (JStr (lit ''0x39C''),
            [JObj [(lit ''name'', JStr (lit ''Hands'')), (lit ''length'', JNum 4),
                   (lit ''startBit'', JNum 4)]])]"
  by (simp add: example_fields_def dict_get_def lit_def cat_insert_def entry_of_def bind_e_def)

lemma example_entries:
  "entries_at example_fields (JStr (lit ''0x39B'')) =
        [JObj [(lit ''name'', JStr (lit ''Pass Accuracy'')), (lit ''length'', JNum 8),
               (lit ''startBit'', JNum 0)],
         JObj [(lit ''name'', JStr (lit ''Ball Control'')), (lit ''length'', JNum 8),
               (lit ''startBit'', JNum 0)]]"
  "entries_at example_fields (JStr []) = []"
  by (simp_all add: entries_at_def example_fields_def offset_of_def dict_get_def entry_of_def lit_def)

lemma example_offsets_format: "offsets_format example_offsets"
  by (simp add: offsets_format_def example_offsets_def example_fields_list lit_def)

lemma example_restructure:
  "restructure example_offsets =
       Inr [(lit ''Base'', Same (JObj [(lit ''Player'', JStr (lit ''0x7E52998''))])),
            (lit ''Attributes'', Cat
              [(JStr (lit ''0x39B''),
                 [JObj [(lit ''name'', JStr (lit ''Pass Accuracy'')), (lit ''length'', JNum 8),
                        (lit ''startBit'', JNum 0)],
                  JObj [(lit ''name'', JStr (lit ''Ball Control'')), (lit ''length'', JNum 8),
                        (lit ''startBit'', JNum 0)]]),
               (JStr (lit ''0x39C''),
                 [JObj [(lit ''name'', JStr (lit ''Hands'')), (lit ''length'', JNum 4),
                        (lit ''startBit'', JNum 4)]])]),
            (lit ''Version'', Same (JNum 25))]"
  by (simp add: example_offsets_def example_fields_loop restructure_def is_base_def
      ascii_lower_def dict_set_def bind_e_def lit_def)

text \<open>
  In the example the fields "Pass Accuracy" and "Ball Control" share the key "0x39B",
  "Hands" has a key of its own, and the fields with an empty and with no offset are gone.
\<close>

theorem restructure_groups_by_offset_witness:
  "offsets_format example_offsets
   \<and> restructure example_offsets =
       Inr [(lit ''Base'', Same (JObj [(lit ''Player'', JStr (lit ''0x7E52998''))])),
            (lit ''Attributes'', Cat
              [(JStr (lit ''0x39B''),
                 [JObj [(lit ''name'', JStr (lit ''Pass Accuracy'')), (lit ''length'', JNum 8),
                        (lit ''startBit'', JNum 0)],
                  JObj [(lit ''name'', JStr (lit ''Ball Control'')), (lit ''length'', JNum 8),
                        (lit ''startBit'', JNum 0)]]),
               (JStr (lit ''0x39C''),
                 [JObj [(lit ''name'', JStr (lit ''Hands'')), (lit ''length'', JNum 4),
                        (lit ''startBit'', JNum 4)]])]),
            (lit ''Version'', Same (JNum 25))]
   \<and> entries_at example_fields (JStr (lit ''0x39B'')) =
        [JObj [(lit ''name'', JStr (lit ''Pass Accuracy'')), (lit ''length'', JNum 8),
               (lit ''startBit'', JNum 0)],
         JObj [(lit ''name'', JStr (lit ''Ball Control'')), (lit ''length'', JNum 8),
               (lit ''startBit'', JNum 0)]]
   \<and> entries_at example_fields (JStr []) = []"
  using restructure_groups_by_offset [OF example_offsets_format]
  by (simp add: example_offsets_format example_restructure example_entries)

section \<open>Verification: the rating conversions\<close>

lemma round_half_even_bounds:
  "of_int (round_half_even x) \<le> x + 1 / 2" "x - 1 / 2 \<le> of_int (round_half_even x)"
  unfolding round_half_even_def Let_def by (auto; linarith)+

lemma round_half_even_mono_int:
  assumes "of_int a \<le> x" "x \<le> of_int b"
  shows "a \<le> round_half_even x \<and> round_half_even x \<le> b"
proof -
  have f: "a \<le> \<lfloor>x\<rfloor>" using assms(1) by (simp add: le_floor_iff)
  have c: "x = of_int b \<or> \<lfloor>x\<rfloor> + 1 \<le> b"
    using assms(2) by (metis floor_less_iff less_eq_rat_def zless_imp_add1_zle of_int_floor_cancel floor_of_int)
  show ?thesis
    using f c unfolding round_half_even_def Let_def by (auto split: if_splits)
qed

lemma py_round_clamp:
  assumes "py_round (clamp_num (PInt a) (PInt b) x) = Inr v" "a \<le> b"
  shows "a \<le> v \<and> v \<le> b"
proof (cases x)
  case (PInt i)
  then show ?thesis using assms
    by (auto simp: clamp_num_def num_less_def exact_val_def py_round_def split: if_splits)
next
  case (PFloat f)
  then show ?thesis using assms round_half_even_mono_int [of a _ b]
    by (cases f) (auto simp: clamp_num_def num_less_def exact_val_def py_round_def split: if_splits)
qed

lemma py_round_clamp_float:
  assumes "py_round (clamp_num (PFloat (Finite (of_int a))) (PFloat (Finite (of_int b))) x) = Inr v" "a \<le> b"
  shows "a \<le> v \<and> v \<le> b"
proof (cases x)
  case (PInt i)
  then show ?thesis using assms
    by (auto simp: clamp_num_def num_less_def exact_val_def py_round_def round_half_even_def split: if_splits)
next
  case (PFloat f)
  then show ?thesis using assms round_half_even_mono_int [of a _ b]
    by (cases f) (auto simp: clamp_num_def num_less_def exact_val_def py_round_def round_half_even_def split: if_splits)
qed

text \<open>
  Claim C10.  The decoders are total and range-bounded: for every integer \<open>raw\<close> and every
  integer \<open>length\<close>, zero and negative ones included, \<open>convert_raw_to_rating\<close> returns an
  integer from 25 to 110 and \<open>convert_tendency_raw_to_rating\<close> one from 0 to 100.  Every
  exception of the body (a negative or an oversized shift count, a quotient too large for
  a float) is a value of the model that the handler turns into the minimum.
\<close>

theorem decoders_total_and_bounded:
  "25 \<le> convert_raw_to_rating raw len \<and> convert_raw_to_rating raw len \<le> 110
   \<and> 0 \<le> convert_tendency_raw_to_rating raw len \<and> convert_tendency_raw_to_rating raw len \<le> 100"
proof -
  have r: "25 \<le> v \<and> v \<le> 110" if "convert_raw_to_rating_body raw len = Inr v" for v
    using that py_round_clamp [of 25 110 _ v]
    by (auto simp: convert_raw_to_rating_body_def rating_value_def bind_e_def Let_def
        RATING_MIN_def RATING_MAX_TRUE_def split: sum.splits if_splits)
  have t: "0 \<le> v \<and> v \<le> 100" if "convert_tendency_raw_to_rating_body raw len = Inr v" for v
    using that py_round_clamp_float [of 0 100 _ v]
    by (auto simp: convert_tendency_raw_to_rating_body_def tendency_value_def bind_e_def Let_def
        split: sum.splits if_splits)
  show ?thesis
    using r t
    by (auto simp: convert_raw_to_rating_def convert_tendency_raw_to_rating_def RATING_MIN_def
        split: sum.splits)
qed

subsection \<open>Evaluating the rounding\<close>

text \<open>
  \<open>fl64\<close> at a given rational: with the exponent \<open>e\<close> and the integer \<open>n\<close> nearest to
  \<open>x / 2 ^ (e - 52)\<close> named, what is left is arithmetic on numerals.
\<close>

lemma floor_rat_numeral: "\<lfloor>numeral a / numeral b :: rat\<rfloor> = numeral a div numeral b"
  using floor_divide_of_int_eq [of "numeral a" "numeral b", where ?'a = rat] by simp

lemma ceiling_rat_numeral: "\<lceil>numeral a / numeral b :: rat\<rceil> = - (- numeral a div numeral b)"
  using ceiling_divide_eq_div [of "numeral a" "numeral b", where ?'a = rat] by simp

lemma round_half_even_eval:
  "rat_of_int n - 1 / 2 < x \<Longrightarrow> x < rat_of_int n + 1 / 2 \<Longrightarrow> round_half_even x = n"
  unfolding round_half_even_def Let_def 
  by (auto; linarith)

lemma round_half_even_tie:
  assumes "x = rat_of_int n + 1 / 2"
  shows "round_half_even x = (if even n then n else n + 1)"
proof -
  have "\<lfloor>x\<rfloor> = n" unfolding assms by linarith
  then show ?thesis
    unfolding round_half_even_def Let_def by (simp add: assms)
qed

lemma fl64_eval:
  assumes "x \<noteq> 0" "ilog2 \<bar>x\<bar> = e" "- 1022 \<le> e" "2 powi (e - 52) = u"
    "rat_of_int n - 1 / 2 < x / u" "x / u < rat_of_int n + 1 / 2" "y = rat_of_int n * u"
  shows "fl64 x = y"
  using assms round_half_even_eval [of n "x / u"] by (auto simp add: fl64_def Let_def max_def)

lemmas fl64_eval_simps = ilog2_def compute_bitlen ceiling_rat_numeral floor_rat_numeral
  power_int_minus

subsection \<open>The rounding of the decoders\<close>

lemma no_half_scaled:
  assumes "odd (m::int)"
  shows "frac (rat_of_int bi + rat_of_int raw / rat_of_int m * rat_of_int c) \<noteq> 1 / 2"
proof
  assume h: "frac (rat_of_int bi + rat_of_int raw / rat_of_int m * rat_of_int c) = 1 / 2"
  from assms(1) have m0: "m \<noteq> 0" by auto
  define k where "k = \<lfloor>rat_of_int bi + rat_of_int raw / rat_of_int m * rat_of_int c\<rfloor>"
  from h have "rat_of_int bi + rat_of_int raw / rat_of_int m * rat_of_int c = rat_of_int k + 1 / 2"
    unfolding frac_def k_def [symmetric] by linarith
  then have "2 * rat_of_int raw * rat_of_int c = (2 * rat_of_int k + 1 - 2 * rat_of_int bi) * rat_of_int m"
    using m0 by (simp add: field_simps)
  then have "rat_of_int (2 * raw * c) = rat_of_int ((2 * k + 1 - 2 * bi) * m)"
    by simp
  then have e: "2 * raw * c = (2 * k + 1 - 2 * bi) * m"
    by (simp only: of_int_eq_iff)
  have "even (2 * raw * c)" by simp
  moreover have "odd ((2 * k + 1 - 2 * bi) * m)" using assms(1) by simp
  ultimately show False using e by simp
qed

lemma exact_never_half:
  "frac (exact_rating raw len) \<noteq> 1 / 2" "frac (exact_tendency raw len) \<noteq> 1 / 2"
proof -
  show "frac (exact_rating raw len) \<noteq> 1 / 2"
  proof (cases "0 < nat len")
    case True
    then have "odd ((2::int) ^ nat len - 1)" by simp
    from no_half_scaled [OF this, of 25 raw 85] show ?thesis
      by (simp add: exact_rating_def)
  next
    case False
    then show ?thesis by (simp add: exact_rating_def frac_def)
  qed
  show "frac (exact_tendency raw len) \<noteq> 1 / 2"
  proof (cases "0 < nat len")
    case True
    then have "odd ((2::int) ^ nat len - 1)" by simp
    from no_half_scaled [OF this, of 0 raw 100] show ?thesis
      by (simp add: exact_tendency_def)
  next
    case False
    then show ?thesis by (simp add: exact_tendency_def frac_def)
  qed
qed

lemma shl_one: "0 \<le> len \<Longrightarrow> len < 2 ^ 63 \<Longrightarrow> shl 1 len = Inr (2 ^ nat len)"
  by (simp add: shl_def)

lemma rating_rounds:
  assumes "0 < len" "len < 2 ^ 63" "rating_value raw (2 ^ nat len - 1) = Inr (PFloat (Finite x))"
  shows "convert_raw_to_rating raw len = round_half_even x"
proof -
  have "\<not> (2::int) ^ nat len \<le> 1" using assms(1) by (simp add: not_le one_less_power)
  then show ?thesis
    using assms shl_one [of len]
    by (simp add: convert_raw_to_rating_def convert_raw_to_rating_body_def bind_e_def Let_def py_round_def)
qed

lemma tendency_rounds:
  assumes "0 < len" "len < 2 ^ 63" "tendency_value raw (2 ^ nat len - 1) = Inr (PFloat (Finite x))"
  shows "convert_tendency_raw_to_rating raw len = round_half_even x"
proof -
  have "\<not> (2::int) ^ nat len \<le> 1" using assms(1) by (simp add: not_le one_less_power)
  then show ?thesis
    using assms shl_one [of len]
    by (simp add: convert_tendency_raw_to_rating_def convert_tendency_raw_to_rating_body_def bind_e_def Let_def py_round_def)
qed

text \<open>
  Claim C7, with the rounding the code has.  For every raw value and every bit width from
  1 (below \<open>2 ^ 63\<close>, so that the shift does not raise): the scaled value of exact
  arithmetic never has fractional part one half, for either decoder; and whenever the
  floating-point value that the decoder gives to \<open>round\<close> is \<open>n + 1/2\<close>, the result is
  the even one of \<open>n\<close> and \<open>n + 1\<close>, not always the next integer up.
\<close>

theorem decoders_round_half_even:
  assumes "0 < len" "len < 2 ^ 63"
  shows "frac (exact_rating raw len) \<noteq> 1 / 2
    \<and> frac (exact_tendency raw len) \<noteq> 1 / 2
    \<and> (rating_value raw (2 ^ nat len - 1) = Inr (PFloat (Finite (rat_of_int n + 1 / 2)))
         \<longrightarrow> convert_raw_to_rating raw len = (if even n then n else n + 1))
    \<and> (tendency_value raw (2 ^ nat len - 1) = Inr (PFloat (Finite (rat_of_int n + 1 / 2)))
         \<longrightarrow> convert_tendency_raw_to_rating raw len = (if even n then n else n + 1))"
  using exact_never_half [of raw len] rating_rounds [OF assms] tendency_rounds [OF assms]
    round_half_even_tie [of "rat_of_int n + 1 / 2" n]
  by simp

text \<open>The floating-point operations of the decoders at four inputs.\<close>

lemma fl64_25:
  assumes "x = 25"
  shows "fl64 x = 25"
  unfolding assms
  by (rule fl64_eval [where e = "4" and n = 7036874417766400 and u = "1 / 2 ^ 48"])
     (simp_all add: fl64_eval_simps)

lemma fl64_85:
  assumes "x = 85"
  shows "fl64 x = 85"
  unfolding assms
  by (rule fl64_eval [where e = "6" and n = 5981343255101440 and u = "1 / 2 ^ 46"])
     (simp_all add: fl64_eval_simps)

lemmas value_eval = num_truediv_def num_mul_def num_add_def as_float_def round64_def
  bind_e_def clamp_num_def num_less_def exact_val_def Let_def RATING_MIN_def RATING_MAX_TRUE_def
  ATTR_STORAGE_MODE_def

lemma fl64_tendency_up_quotient:
  assumes "x = 334955222285680 / 562949953421311"
  shows "fl64 x = 2679641778285445 / 4503599627370496"
  unfolding assms
  by (rule fl64_eval [where e = "-1" and n = 5359283556570890 and u = "1 / 2 ^ 53"])
     (simp_all add: fl64_eval_simps)

lemma fl64_tendency_up_scaled:
  assumes "x = 66991044457136125 / 1125899906842624"
  shows "fl64 x = 119 / 2"
  unfolding assms
  by (rule fl64_eval [where e = "5" and n = 8373880557142016 and u = "1 / 2 ^ 47"])
     (simp_all add: fl64_eval_simps)

lemma tendency_value_tendency_up:
  "tendency_value 334955222285680 562949953421311 = Inr (PFloat (Finite (119 / 2)))"
  by (simp add: tendency_value_def value_eval fl64_tendency_up_quotient fl64_tendency_up_scaled)

lemma fl64_rating_up_quotient:
  assumes "x = 533146720593124 / 562949953421311"
  shows "fl64 x = 8530347529489999 / 9007199254740992"
  unfolding assms
  by (rule fl64_eval [where e = "-1" and n = 8530347529489999 and u = "1 / 2 ^ 53"])
     (simp_all add: fl64_eval_simps)

lemma fl64_rating_up_scaled:
  assumes "x = 725079540006649915 / 9007199254740992"
  shows "fl64 x = 161 / 2"
  unfolding assms
  by (rule fl64_eval [where e = "6" and n = 5664683906301952 and u = "1 / 2 ^ 46"])
     (simp_all add: fl64_eval_simps)

lemma fl64_rating_up_sum:
  assumes "x = 211 / 2"
  shows "fl64 x = 211 / 2"
  unfolding assms
  by (rule fl64_eval [where e = "6" and n = 7423902510743552 and u = "1 / 2 ^ 46"])
     (simp_all add: fl64_eval_simps)

lemma rating_value_rating_up:
  "rating_value 533146720593124 562949953421311 = Inr (PFloat (Finite (211 / 2)))"
  by (simp add: rating_value_def value_eval fl64_25 fl64_85 fl64_rating_up_quotient fl64_rating_up_scaled
      fl64_rating_up_sum)

lemma fl64_tendency_even_quotient:
  assumes "x = 96405179523399 / 140737488355327"
  shows "fl64 x = 1542482872374395 / 2251799813685248"
  unfolding assms
  by (rule fl64_eval [where e = "-1" and n = 6169931489497580 and u = "1 / 2 ^ 53"])
     (simp_all add: fl64_eval_simps)

lemma fl64_tendency_even_scaled:
  assumes "x = 38562071809359875 / 562949953421312"
  shows "fl64 x = 137 / 2"
  unfolding assms
  by (rule fl64_eval [where e = "6" and n = 4820258976169984 and u = "1 / 2 ^ 46"])
     (simp_all add: fl64_eval_simps)

lemma tendency_value_tendency_even:
  "tendency_value 96405179523399 140737488355327 = Inr (PFloat (Finite (137 / 2)))"
  by (simp add: tendency_value_def value_eval fl64_tendency_even_quotient fl64_tendency_even_scaled)

lemma fl64_rating_even_quotient:
  assumes "x = 539769661221610 / 562949953421311"
  shows "fl64 x = 8636314579545775 / 9007199254740992"
  unfolding assms
  by (rule fl64_eval [where e = "-1" and n = 8636314579545775 and u = "1 / 2 ^ 53"])
     (simp_all add: fl64_eval_simps)

lemma fl64_rating_even_scaled:
  assumes "x = 734086739261390875 / 9007199254740992"
  shows "fl64 x = 163 / 2"
  unfolding assms
  by (rule fl64_eval [where e = "6" and n = 5735052650479616 and u = "1 / 2 ^ 46"])
     (simp_all add: fl64_eval_simps)

lemma fl64_rating_even_sum:
  assumes "x = 213 / 2"
  shows "fl64 x = 213 / 2"
  unfolding assms
  by (rule fl64_eval [where e = "6" and n = 7494271254921216 and u = "1 / 2 ^ 46"])
     (simp_all add: fl64_eval_simps)

lemma rating_value_rating_even:
  "rating_value 539769661221610 562949953421311 = Inr (PFloat (Finite (213 / 2)))"
  by (simp add: rating_value_def value_eval fl64_25 fl64_85 fl64_rating_even_quotient fl64_rating_even_scaled
      fl64_rating_even_sum)


text \<open>
  Ties to an odd integer: the 49-bit tendency field 334955222285680 scales to 59.5 and
  decodes to 60, the 49-bit rating field 533146720593124 scales to 105.5 and decodes
  to 106.
\<close>

theorem decoders_round_half_even_witness:
  "tendency_value 334955222285680 (2 ^ nat 49 - 1) = Inr (PFloat (Finite (rat_of_int 59 + 1 / 2)))
   \<and> convert_tendency_raw_to_rating 334955222285680 49 = 60
   \<and> rating_value 533146720593124 (2 ^ nat 49 - 1) = Inr (PFloat (Finite (rat_of_int 105 + 1 / 2)))
   \<and> convert_raw_to_rating 533146720593124 49 = 106
   \<and> frac (exact_tendency 334955222285680 49) \<noteq> 1 / 2
   \<and> frac (exact_rating 533146720593124 49) \<noteq> 1 / 2"
  using decoders_round_half_even [where len = 49 and raw = 334955222285680 and n = 59]
    decoders_round_half_even [where len = 49 and raw = 533146720593124 and n = 105]
  by (simp add: tendency_value_tendency_up rating_value_rating_up)

text \<open>
  Ties to an even integer: the 47-bit tendency field 96405179523399 scales to 68.5 in
  floating point and decodes to 68, the 49-bit rating field 539769661221610 scales to
  106.5 and decodes to 106; rounding half up would give 69 and 107.
\<close>

theorem decoders_round_half_up_counterexample:
  "tendency_value 96405179523399 (2 ^ 47 - 1) = Inr (PFloat (Finite (137 / 2)))
   \<and> convert_tendency_raw_to_rating 96405179523399 47 = 68
   \<and> rating_value 539769661221610 (2 ^ 49 - 1) = Inr (PFloat (Finite (213 / 2)))
   \<and> convert_raw_to_rating 539769661221610 49 = 106"
  by (simp add: tendency_value_tendency_even rating_value_rating_even
      convert_tendency_raw_to_rating_def convert_tendency_raw_to_rating_body_def
      convert_raw_to_rating_def convert_raw_to_rating_body_def shl_def bind_e_def py_round_def
      round_half_even_def Let_def floor_rat_numeral)

subsection \<open>The error of one floating-point operation\<close>

text \<open>
  Below \<open>2 ^ 18\<close> in absolute value the exponent is at most 17, so that rounding moves a
  value by at most \<open>2 ^ - 36\<close>, and the result is finite.
\<close>

lemma ilog2_le:
  assumes "0 < x" "x < 2 ^ Suc k"
  shows "ilog2 x \<le> int k"
proof (cases "1 \<le> x")
  case True
  have "rat_of_int \<lfloor>x\<rfloor> \<le> x" by simp
  also have "x < rat_of_int (2 ^ Suc k)" using assms(2) by simp
  finally have "\<lfloor>x\<rfloor> < 2 ^ Suc k" by (simp only: of_int_less_iff)
  then have "bitlen \<lfloor>x\<rfloor> \<le> int (Suc k)" by (simp add: bitlen_le_iff_power nat_add_distrib)
  with True show ?thesis by (simp add: ilog2_def)
next
  case False
  then show ?thesis
    using bitlen_nonneg [of "\<lceil>1 / x\<rceil> - 1"] by (simp add: ilog2_def)
qed

lemma round_half_even_close: "\<bar>rat_of_int (round_half_even y) - y\<bar> \<le> 1 / 2"
  using round_half_even_bounds [of y] by linarith

lemma fl64_close_ulp:
  assumes "x \<noteq> 0"
  shows "\<bar>fl64 x - x\<bar> \<le> 2 powi (max (ilog2 \<bar>x\<bar>) (- 1022) - 52) / 2"
proof -
  define u :: rat where "u = 2 powi (max (ilog2 \<bar>x\<bar>) (- 1022) - 52)"
  have u: "0 < u" by (simp add: u_def)
  have "fl64 x - x = (rat_of_int (round_half_even (x / u)) - x / u) * u"
    using assms u by (simp add: fl64_def Let_def u_def [symmetric] algebra_simps)
  then have "\<bar>fl64 x - x\<bar> = \<bar>rat_of_int (round_half_even (x / u)) - x / u\<bar> * u"
    using u by (simp add: abs_mult)
  also have "\<dots> \<le> 1 / 2 * u"
    using round_half_even_close [of "x / u"] u by (intro mult_right_mono) simp_all
  finally show ?thesis by (simp add: u_def)
qed

lemma fl64_close:
  assumes "\<bar>x\<bar> < 2 ^ 18"
  shows "\<bar>fl64 x - x\<bar> \<le> 1 / 2 ^ 36"
proof (cases "x = 0")
  case True
  then show ?thesis by (simp add: fl64_def)
next
  case False
  then have "ilog2 \<bar>x\<bar> \<le> 17" using ilog2_le [of "\<bar>x\<bar>" 17] assms by simp
  then have "max (ilog2 \<bar>x\<bar>) (- 1022) - 52 \<le> - 35" by simp
  then have "(2::rat) powi (max (ilog2 \<bar>x\<bar>) (- 1022) - 52) \<le> 2 powi (- 35)"
    by (intro power_int_increasing) simp_all
  also have "(2::rat) powi (- 35) = 1 / 2 ^ 35" by (simp add: power_int_minus field_simps)
  finally have "(2::rat) powi (max (ilog2 \<bar>x\<bar>) (- 1022) - 52) / 2 \<le> 1 / 2 ^ 36" by simp
  with fl64_close_ulp [OF False] show ?thesis by linarith
qed

lemma round64_close:
  assumes "\<bar>x\<bar> < 2 ^ 18"
  shows "round64 x = Finite (fl64 x)"
proof -
  have "\<bar>fl64 x\<bar> < 2 ^ 19" using fl64_close [OF assms] assms by (simp add: abs_if split: if_splits)
  moreover have "(2::rat) ^ 19 < 2 ^ 1024" by (intro power_strict_increasing) simp_all
  ultimately have "\<bar>fl64 x\<bar> < 2 ^ 1024" by linarith
  then show ?thesis by (simp add: round64_def Let_def abs_if split: if_splits)
qed

subsection \<open>Decoding after encoding\<close>

text \<open>
  The decoder is within \<open>1/2 + 87 * 2 ^ - 36\<close> of the exact scaled value of a raw value
  in range; the encoder returns a raw value in range within \<open>1/2 + 2 ^ - 19\<close> of the
  exact scaled fraction.
\<close>

lemma as_float_const: "as_float (PInt 25) = Inr (Finite 25)" "as_float (PInt 85) = Inr (Finite 85)"
  by (simp_all add: as_float_def round64_def Let_def fl64_25 fl64_85)

lemma round64_const: "round64 25 = Finite 25" "round64 85 = Finite 85"
  by (simp_all add: round64_def Let_def fl64_25 fl64_85)

lemma as_float_small:
  assumes "\<bar>rat_of_int c\<bar> < 2 ^ 18"
  shows "as_float (PInt c) = Inr (Finite (fl64 (rat_of_int c)))"
  using round64_close [OF assms] by (simp add: as_float_def)

lemma truediv_small:
  assumes "j \<noteq> 0" "\<bar>rat_of_int i / rat_of_int j\<bar> < 2 ^ 18"
  shows "num_truediv (PInt i) (PInt j) = Inr (PFloat (Finite (fl64 (rat_of_int i / rat_of_int j))))"
  using round64_close [OF assms(2)] assms(1) by (simp add: num_truediv_def)

lemma clamp_rating_range: "25 \<le> clamp_rating r" "clamp_rating r \<le> 110"
  by (simp_all add: clamp_rating_def)

lemma clamp_rating_close:
  assumes "25 \<le> s" "s \<le> 110"
  shows "\<bar>clamp_rating t - s\<bar> \<le> \<bar>t - s\<bar>"
  using assms by (simp add: clamp_rating_def abs_if)

lemma py_round_clamp_rating:
  "\<exists>v. py_round (clamp_num (PInt 25) (PInt 110) (PFloat (Finite t))) = Inr v
       \<and> \<bar>rat_of_int v - clamp_rating t\<bar> \<le> 1 / 2"
  using round_half_even_close [of t]
  by (simp add: clamp_num_def num_less_def exact_val_def py_round_def clamp_rating_def)

lemma shl_one_pow: "0 \<le> len \<Longrightarrow> len \<le> 16 \<Longrightarrow> shl 1 len = Inr (2 ^ nat len)"
  by (simp add: shl_def)

lemma max_raw_bounds:
  assumes "1 \<le> len" "len \<le> 16"
  shows "(1::int) \<le> 2 ^ nat len - 1" "(2::int) ^ nat len - 1 \<le> 65535"
proof -
  have "(2::int) ^ 1 \<le> 2 ^ nat len" using assms(1) by (intro power_increasing) simp_all
  then show "(1::int) \<le> 2 ^ nat len - 1" by simp
  have "(2::int) ^ nat len \<le> 2 ^ 16" using assms(2) by (intro power_increasing) simp_all
  then show "(2::int) ^ nat len - 1 \<le> 65535" by simp
qed

lemma rating_value_close:
  assumes M: "1 \<le> M" "M \<le> 65535" and raw: "0 \<le> raw" "raw \<le> M"
  shows "\<exists>t. rating_value raw M = Inr (clamp_num (PInt 25) (PInt 110) (PFloat (Finite t)))
     \<and> \<bar>t - (25 + 85 * rat_of_int raw / rat_of_int M)\<bar> \<le> 87 / 2 ^ 36"
proof -
  define x where "x = rat_of_int raw / rat_of_int M"
  have x: "0 \<le> x" "x \<le> 1" using M raw by (simp_all add: x_def)
  define q where "q = fl64 x"
  have q: "\<bar>q - x\<bar> \<le> 1 / 2 ^ 36" unfolding q_def using x by (intro fl64_close) simp
  have ax: "\<bar>x\<bar> < 2 ^ 18" using x by simp
  have dv: "num_truediv (PInt raw) (PInt M) = Inr (PFloat (Finite q))"
    unfolding q_def x_def using M ax [unfolded x_def] by (intro truediv_small) simp_all
  define p where "p = fl64 (q * 85)"
  have q85: "\<bar>q * 85\<bar> < 2 ^ 18" using q x by (simp add: abs_if split: if_splits)
  have p: "\<bar>p - q * 85\<bar> \<le> 1 / 2 ^ 36" unfolding p_def using q85 by (rule fl64_close)
  have ml: "num_mul (PFloat (Finite q)) (PInt 85) = Inr (PFloat (Finite p))"
    using round64_close [OF q85]
    by (simp add: num_mul_def as_float_def RATING_MAX_TRUE_def RATING_MIN_def round64_const
        bind_e_def p_def)
  define t where "t = fl64 (25 + p)"
  have p25: "\<bar>25 + p\<bar> < 2 ^ 18" using p q x by (simp add: abs_if split: if_splits)
  have t: "\<bar>t - (25 + p)\<bar> \<le> 1 / 2 ^ 36" unfolding t_def using p25 by (rule fl64_close)
  have ad: "num_add (PInt 25) (PFloat (Finite p)) = Inr (PFloat (Finite t))"
    using round64_close [OF p25]
    by (simp add: num_add_def RATING_MIN_def round64_const as_float_def bind_e_def t_def)
  have "rating_value raw M = Inr (clamp_num (PInt 25) (PInt 110) (PFloat (Finite t)))"
    by (simp add: rating_value_def ATTR_STORAGE_MODE_def dv ml ad bind_e_def RATING_MIN_def
        RATING_MAX_TRUE_def)
  moreover have "\<bar>t - (25 + 85 * x)\<bar> \<le> 87 / 2 ^ 36"
    using t p q by (simp add: abs_if split: if_splits)
  ultimately show ?thesis by (auto simp: x_def)
qed

lemma decode_close:
  assumes "1 \<le> len" "len \<le> 16" "0 \<le> raw" "raw \<le> 2 ^ nat len - 1"
  shows "\<bar>rat_of_int (convert_raw_to_rating raw len)
            - (25 + 85 * rat_of_int raw / rat_of_int (2 ^ nat len - 1))\<bar> \<le> 1 / 2 + 87 / 2 ^ 36"
proof -
  define M :: int where "M = 2 ^ nat len - 1"
  have M: "1 \<le> M" "M \<le> 65535" using max_raw_bounds [OF assms(1,2)] by (simp_all add: M_def)
  define s where "s = 25 + 85 * rat_of_int raw / rat_of_int M"
  have s: "25 \<le> s" "s \<le> 110"
  proof -
    have "0 \<le> rat_of_int raw / rat_of_int M" "rat_of_int raw / rat_of_int M \<le> 1"
      using M assms(3) assms(4) [folded M_def] by simp_all
    then show "25 \<le> s" "s \<le> 110" by (simp_all add: s_def)
  qed
  from rating_value_close [OF M assms(3) assms(4) [folded M_def]] obtain t where
    rv: "rating_value raw M = Inr (clamp_num (PInt 25) (PInt 110) (PFloat (Finite t)))"
    and t: "\<bar>t - s\<bar> \<le> 87 / 2 ^ 36"
    by (auto simp: s_def)
  from py_round_clamp_rating [of t] obtain v where
    v: "py_round (clamp_num (PInt 25) (PInt 110) (PFloat (Finite t))) = Inr v"
    and vc: "\<bar>rat_of_int v - clamp_rating t\<bar> \<le> 1 / 2"
    by blast
  have big: "\<not> (2::int) ^ nat len \<le> 1" using M by (simp add: M_def)
  have "convert_raw_to_rating raw len = v"
    using shl_one_pow [of len] assms(1,2) rv [unfolded M_def] v big
    by (simp add: convert_raw_to_rating_def convert_raw_to_rating_body_def bind_e_def Let_def)
  moreover have "\<bar>rat_of_int v - s\<bar> \<le> 1 / 2 + 87 / 2 ^ 36"
    using vc clamp_rating_close [OF s, of t] t by linarith
  ultimately show ?thesis by (simp add: s_def M_def)
qed

lemma fraction_close:
  "\<exists>f. bind_e (num_sub (clamp_num (PInt 25) (PInt 110) (PFloat (Finite r))) (PInt 25))
            (\<lambda>d. num_truediv d (PInt 85)) = Inr (PFloat (Finite f))
       \<and> \<bar>f - (clamp_rating r - 25) / 85\<bar> \<le> 2 / 2 ^ 36"
proof -
  consider "r < 25" | "110 < r" | "25 \<le> r" "r \<le> 110" by linarith
  then show ?thesis
  proof cases
    case 1
    then have "bind_e (num_sub (clamp_num (PInt 25) (PInt 110) (PFloat (Finite r))) (PInt 25))
            (\<lambda>d. num_truediv d (PInt 85)) = Inr (PFloat (Finite 0))"
      using truediv_small [of 85 0]
      by (simp add: clamp_num_def num_less_def exact_val_def num_sub_def bind_e_def fl64_def)
    with 1 show ?thesis by (simp add: clamp_rating_def)
  next
    case 2
    then have "bind_e (num_sub (clamp_num (PInt 25) (PInt 110) (PFloat (Finite r))) (PInt 25))
            (\<lambda>d. num_truediv d (PInt 85)) = Inr (PFloat (Finite (fl64 1)))"
      using truediv_small [of 85 85]
      by (simp add: clamp_num_def num_less_def exact_val_def num_sub_def bind_e_def)
    moreover have "\<bar>fl64 1 - 1\<bar> \<le> 1 / 2 ^ 36" by (rule fl64_close) simp
    ultimately show ?thesis using 2 by (auto simp: clamp_rating_def)
  next
    case 3
    define d where "d = fl64 (r - 25)"
    have r25: "\<bar>r - 25\<bar> < 2 ^ 18" using 3 by simp
    have d: "\<bar>d - (r - 25)\<bar> \<le> 1 / 2 ^ 36" unfolding d_def using r25 by (rule fl64_close)
    have sb: "num_sub (clamp_num (PInt 25) (PInt 110) (PFloat (Finite r))) (PInt 25)
        = Inr (PFloat (Finite d))"
      using 3 round64_close [OF r25]
      by (simp add: clamp_num_def num_less_def exact_val_def num_sub_def bind_e_def as_float_def
          round64_const fsub_def fneg_def d_def)
    have "\<bar>d - (r - 25)\<bar> \<le> 1" using d by (rule order_trans) simp
    then have da: "\<bar>d\<bar> \<le> 86" using 3 by linarith
    have d85: "\<bar>d / 85\<bar> < 2 ^ 18" using da by simp
    define f where "f = fl64 (d / 85)"
    have f: "\<bar>f - d / 85\<bar> \<le> 1 / 2 ^ 36" unfolding f_def using d85 by (rule fl64_close)
    have dv: "num_truediv (PFloat (Finite d)) (PInt 85) = Inr (PFloat (Finite f))"
      using round64_close [OF d85]
      by (simp add: num_truediv_def bind_e_def as_float_def round64_const f_def)
    have "\<bar>f - (r - 25) / 85\<bar> \<le> 2 / 2 ^ 36"
    proof -
      define eta :: rat where "eta = 1 / 2 ^ 36"
      have e0: "0 \<le> eta" by (simp add: eta_def)
      have a: "\<bar>f - d / 85\<bar> \<le> eta" "\<bar>d - (r - 25)\<bar> \<le> eta"
        using f d by (simp_all add: eta_def)
      have "(r - 25) / 85 = r / 85 - 25 / 85" by (simp add: diff_divide_distrib)
      then have "\<bar>f - (r - 25) / 85\<bar> \<le> 2 * eta" using a e0 by linarith
      then show ?thesis by (simp add: eta_def)
    qed
    with sb dv 3 show ?thesis by (auto simp: bind_e_def clamp_rating_def)
  qed
qed

lemma scaled_close:
  assumes f: "\<bar>f - t\<bar> \<le> 2 / 2 ^ 36" and t: "0 \<le> t" "t \<le> 1" and M: "1 \<le> M" "M \<le> 65535"
  shows "\<exists>v. bind_e (num_mul (clamp_num (PFloat (Finite 0)) (PFloat (Finite 1)) (PFloat (Finite f)))
                    (PInt M)) py_round = Inr v
           \<and> \<bar>rat_of_int v - t * rat_of_int M\<bar> \<le> 1 / 2 + 1 / 2 ^ 19"
proof -
  define fc where "fc = (if f < 0 then 0 else if 1 < f then 1 else f)"
  have cl: "clamp_num (PFloat (Finite 0)) (PFloat (Finite 1)) (PFloat (Finite f)) = PFloat (Finite fc)"
    by (simp add: clamp_num_def num_less_def exact_val_def fc_def)
  have fc: "0 \<le> fc" "fc \<le> 1" "\<bar>fc - t\<bar> \<le> 2 / 2 ^ 36"
    using f t by (simp_all add: fc_def abs_if split: if_splits)
  define M' where "M' = fl64 (rat_of_int M)"
  have aM: "\<bar>rat_of_int M\<bar> < 2 ^ 18" using M by simp
  have M': "\<bar>M' - rat_of_int M\<bar> \<le> 1 / 2 ^ 36" unfolding M'_def using aM by (rule fl64_close)
  have Mr: "1 \<le> rat_of_int M" "rat_of_int M \<le> 65535" using M by simp_all
  have M'pos: "0 \<le> M'" "M' \<le> 65536" using M' Mr by (simp_all add: abs_if split: if_splits)
  have "fc * M' \<le> 1 * M'" using fc M'pos by (intro mult_right_mono) simp_all
  moreover have "0 \<le> fc * M'" using fc M'pos by simp
  ultimately have prod: "\<bar>fc * M'\<bar> < 2 ^ 18" using M'pos by simp
  define p where "p = fl64 (fc * M')"
  have p: "\<bar>p - fc * M'\<bar> \<le> 1 / 2 ^ 36" unfolding p_def using prod by (rule fl64_close)
  have ml: "num_mul (PFloat (Finite fc)) (PInt M) = Inr (PFloat (Finite p))"
    using round64_close [OF prod] round64_close [OF aM]
    by (simp add: num_mul_def as_float_def bind_e_def p_def M'_def)
  have e1: "\<bar>fc * (M' - rat_of_int M)\<bar> \<le> 1 * (1 / 2 ^ 36)"
    unfolding abs_mult using fc M' by (intro mult_mono) simp_all
  have e2: "\<bar>(fc - t) * rat_of_int M\<bar> \<le> 2 / 2 ^ 36 * 65535"
    unfolding abs_mult using fc(3) Mr by (intro mult_mono) simp_all
  have "fc * M' - t * rat_of_int M = fc * (M' - rat_of_int M) + (fc - t) * rat_of_int M"
    by (simp add: algebra_simps)
  then have "\<bar>fc * M' - t * rat_of_int M\<bar> \<le> 1 * (1 / 2 ^ 36) + 2 / 2 ^ 36 * 65535"
    using e1 e2 by linarith
  then have pt: "\<bar>p - t * rat_of_int M\<bar> \<le> 1 / 2 ^ 19"
    using p by (simp add: abs_if split: if_splits)
  have "\<bar>rat_of_int (round_half_even p) - t * rat_of_int M\<bar> \<le> 1 / 2 + 1 / 2 ^ 19"
    using round_half_even_close [of p] pt by linarith
  then show ?thesis
    by (simp add: cl ml bind_e_def py_round_def)
qed

lemma encode_close:
  assumes len: "1 \<le> len" "len \<le> 16" and r: "as_float rating = Inr (Finite r)"
  shows "0 \<le> convert_rating_to_raw rating len
     \<and> convert_rating_to_raw rating len \<le> 2 ^ nat len - 1
     \<and> \<bar>rat_of_int (convert_rating_to_raw rating len)
          - (clamp_rating r - 25) / 85 * rat_of_int (2 ^ nat len - 1)\<bar> \<le> 1 / 2 + 1 / 2 ^ 19"
proof -
  define M :: int where "M = 2 ^ nat len - 1"
  have M: "1 \<le> M" "M \<le> 65535" using max_raw_bounds [OF len] by (simp_all add: M_def)
  have big: "\<not> (2::int) ^ nat len \<le> 1" using M by (simp add: M_def)
  define t where "t = (clamp_rating r - 25) / 85"
  have t: "0 \<le> t" "t \<le> 1" using clamp_rating_range [of r] by (simp_all add: t_def)
  from fraction_close [of r] obtain f where
    fr: "bind_e (num_sub (clamp_num (PInt 25) (PInt 110) (PFloat (Finite r))) (PInt 25))
            (\<lambda>d. num_truediv d (PInt 85)) = Inr (PFloat (Finite f))"
    and f: "\<bar>f - t\<bar> \<le> 2 / 2 ^ 36"
    by (auto simp: t_def)
  from scaled_close [OF f t M] obtain v where
    sc: "bind_e (num_mul (clamp_num (PFloat (Finite 0)) (PFloat (Finite 1)) (PFloat (Finite f)))
                    (PInt M)) py_round = Inr v"
    and v: "\<bar>rat_of_int v - t * rat_of_int M\<bar> \<le> 1 / 2 + 1 / 2 ^ 19"
    by blast
  define raw where "raw = (if v < 0 then 0 else if M < v then M else v)"
  from fr obtain d where
    d1: "num_sub (clamp_num (PInt 25) (PInt 110) (PFloat (Finite r))) (PInt 25) = Inr d"
    and d2: "num_truediv d (PInt 85) = Inr (PFloat (Finite f))"
    unfolding bind_e_Inr by blast
  have body: "convert_rating_to_raw_body rating len = Inr raw"
    using shl_one_pow [of len] len big r d1 d2 sc [unfolded M_def]
    by (simp add: convert_rating_to_raw_body_def bind_e_def Let_def ATTR_STORAGE_MODE_def
        RATING_MIN_def RATING_MAX_TRUE_def raw_def M_def)
  have tM: "0 \<le> t * rat_of_int M" "t * rat_of_int M \<le> rat_of_int M"
    using t M by (simp_all add: mult_left_le_one_le)
  have "\<bar>rat_of_int raw - t * rat_of_int M\<bar> \<le> \<bar>rat_of_int v - t * rat_of_int M\<bar>"
    using tM by (simp add: raw_def abs_if)
  moreover have "0 \<le> raw" "raw \<le> M" using M by (simp_all add: raw_def)
  ultimately show ?thesis
    using v body by (simp add: convert_rating_to_raw_def t_def M_def)
qed

text \<open>
  Claim C2, for the widths at which it holds.  In mode \<open>scale\<close>, for every bit width from
  7 to 16 and every rating that \<open>float\<close> turns into a finite value \<open>r\<close> (a finite float,
  or an \<open>int\<close> in the range of the floats), decoding the encoding of the rating gives a
  value within 1 of \<open>r\<close> clamped to 25..110.
\<close>

theorem scale_roundtrip_within_one:
  assumes "7 \<le> len" "len \<le> 16" "as_float rating = Inr (Finite r)"
  shows "\<bar>rat_of_int (convert_raw_to_rating (convert_rating_to_raw rating len) len)
            - clamp_rating r\<bar> \<le> 1"
proof -
  define M :: int where "M = 2 ^ nat len - 1"
  define raw where "raw = convert_rating_to_raw rating len"
  define t where "t = (clamp_rating r - 25) / 85"
  have len1: "1 \<le> len" using assms(1) by simp
  have "(2::int) ^ 7 \<le> 2 ^ nat len" using assms(1) by (intro power_increasing) simp_all
  then have "127 \<le> M" by (simp add: M_def)
  then have "rat_of_int 127 \<le> rat_of_int M" by (simp only: of_int_le_iff)
  then have M: "127 \<le> rat_of_int M" by simp
  from encode_close [OF len1 assms(2,3)]
  have raw: "0 \<le> raw" "raw \<le> M"
    and e: "\<bar>rat_of_int raw - t * rat_of_int M\<bar> \<le> 1 / 2 + 1 / 2 ^ 19"
    by (simp_all add: raw_def M_def t_def)
  from decode_close [OF len1 assms(2) raw(1) raw(2) [unfolded M_def]]
  have d: "\<bar>rat_of_int (convert_raw_to_rating raw len)
            - (25 + 85 * rat_of_int raw / rat_of_int M)\<bar> \<le> 1 / 2 + 87 / 2 ^ 36"
    by (simp add: M_def)
  have c: "clamp_rating r = 25 + 85 * t" unfolding t_def by (simp add: diff_divide_distrib)
  define D where "D = (rat_of_int raw - t * rat_of_int M) / rat_of_int M"
  have eq: "25 + 85 * rat_of_int raw / rat_of_int M - clamp_rating r = 85 * D"
    using M by (simp add: c D_def field_simps)
  have Db: "\<bar>D\<bar> \<le> (1 / 2 + 1 / 2 ^ 19) / 127"
    unfolding D_def abs_divide using e M by (intro frac_le) simp_all
  have "\<bar>25 + 85 * rat_of_int raw / rat_of_int M - clamp_rating r\<bar>
      \<le> 85 * ((1 / 2 + 1 / 2 ^ 19) / 127)"
    unfolding eq abs_mult using Db by simp
  moreover have "1 / 2 + 87 / 2 ^ 36 + 85 * ((1 / 2 + 1 / 2 ^ 19) / 127) \<le> (1::rat)" by simp
  ultimately show ?thesis using d unfolding raw_def by linarith
qed

text \<open>The floating-point operations of the two conversions at the ratings 60 and 39.1640625.\<close>

lemma fl64_c1:
  assumes "x = 60"
  shows "fl64 x = 60"
  unfolding assms
  by (rule fl64_eval [where e = "5" and n = 8444249301319680 and u = "1 / 2 ^ 47"])
     (simp_all add: fl64_eval_simps)

lemma fl64_c2:
  assumes "x = 25"
  shows "fl64 x = 25"
  unfolding assms
  by (rule fl64_eval [where e = "4" and n = 7036874417766400 and u = "1 / 2 ^ 48"])
     (simp_all add: fl64_eval_simps)

lemma fl64_c3:
  assumes "x = 35"
  shows "fl64 x = 35"
  unfolding assms
  by (rule fl64_eval [where e = "5" and n = 4925812092436480 and u = "1 / 2 ^ 47"])
     (simp_all add: fl64_eval_simps)

lemma fl64_c4:
  assumes "x = 85"
  shows "fl64 x = 85"
  unfolding assms
  by (rule fl64_eval [where e = "6" and n = 5981343255101440 and u = "1 / 2 ^ 46"])
     (simp_all add: fl64_eval_simps)

lemma fl64_c5:
  assumes "x = 7 / 17"
  shows "fl64 x = 3708846751952173 / 9007199254740992"
  unfolding assms
  by (rule fl64_eval [where e = "-2" and n = 7417693503904346 and u = "1 / 2 ^ 54"])
     (simp_all add: fl64_eval_simps)

lemma fl64_c6:
  assumes "x = 1"
  shows "fl64 x = 1"
  unfolding assms
  by (rule fl64_eval [where e = "0" and n = 4503599627370496 and u = "1 / 2 ^ 52"])
     (simp_all add: fl64_eval_simps)

lemma fl64_c7:
  assumes "x = 3708846751952173 / 9007199254740992"
  shows "fl64 x = 3708846751952173 / 9007199254740992"
  unfolding assms
  by (rule fl64_eval [where e = "-2" and n = 7417693503904346 and u = "1 / 2 ^ 54"])
     (simp_all add: fl64_eval_simps)

lemma fl64_c8:
  assumes "x = 1813 / 128"
  shows "fl64 x = 1813 / 128"
  unfolding assms
  by (rule fl64_eval [where e = "3" and n = 7973658324631552 and u = "1 / 2 ^ 49"])
     (simp_all add: fl64_eval_simps)

lemma fl64_c9:
  assumes "x = 1813 / 10880"
  shows "fl64 x = 1500923919930645 / 9007199254740992"
  unfolding assms
  by (rule fl64_eval [where e = "-3" and n = 6003695679722580 and u = "1 / 2 ^ 55"])
     (simp_all add: fl64_eval_simps)

lemma fl64_c10:
  assumes "x = 63"
  shows "fl64 x = 63"
  unfolding assms
  by (rule fl64_eval [where e = "5" and n = 8866461766385664 and u = "1 / 2 ^ 47"])
     (simp_all add: fl64_eval_simps)

lemma fl64_c11:
  assumes "x = 94558206955630635 / 9007199254740992"
  shows "fl64 x = 5909887934726915 / 562949953421312"
  unfolding assms
  by (rule fl64_eval [where e = "3" and n = 5909887934726915 and u = "1 / 2 ^ 49"])
     (simp_all add: fl64_eval_simps)

lemma fl64_c12:
  assumes "x = 10 / 63"
  shows "fl64 x = 1429714167419205 / 9007199254740992"
  unfolding assms
  by (rule fl64_eval [where e = "-3" and n = 5718856669676820 and u = "1 / 2 ^ 55"])
     (simp_all add: fl64_eval_simps)

lemma fl64_c13:
  assumes "x = 121525704230632425 / 9007199254740992"
  shows "fl64 x = 7595356514414527 / 562949953421312"
  unfolding assms
  by (rule fl64_eval [where e = "3" and n = 7595356514414527 and u = "1 / 2 ^ 49"])
     (simp_all add: fl64_eval_simps)

lemma fl64_c14:
  assumes "x = 21669105349947327 / 562949953421312"
  shows "fl64 x = 338579771092927 / 8796093022208"
  unfolding assms
  by (rule fl64_eval [where e = "5" and n = 5417276337486832 and u = "1 / 2 ^ 47"])
     (simp_all add: fl64_eval_simps)

lemma fl64_c15:
  assumes "x = 255"
  shows "fl64 x = 255"
  unfolding assms
  by (rule fl64_eval [where e = "7" and n = 8972014882652160 and u = "1 / 2 ^ 45"])
     (simp_all add: fl64_eval_simps)

lemma fl64_c16:
  assumes "x = 945755921747804115 / 9007199254740992"
  shows "fl64 x = 105"
  unfolding assms
  by (rule fl64_eval [where e = "6" and n = 7388718138654720 and u = "1 / 2 ^ 46"])
     (simp_all add: fl64_eval_simps)

lemma fl64_c17:
  assumes "x = 315251973915934705 / 9007199254740992"
  shows "fl64 x = 35"
  unfolding assms
  by (rule fl64_eval [where e = "5" and n = 4925812092436480 and u = "1 / 2 ^ 47"])
     (simp_all add: fl64_eval_simps)


lemmas fl64_examples = fl64_c1 fl64_c2 fl64_c3 fl64_c4 fl64_c5 fl64_c6 fl64_c7 fl64_c8 fl64_c9 fl64_c10 fl64_c11 fl64_c12 fl64_c13 fl64_c14 fl64_c15 fl64_c16 fl64_c17

lemmas roundtrip_eval = convert_rating_to_raw_def convert_rating_to_raw_body_def
  convert_raw_to_rating_def convert_raw_to_rating_body_def rating_value_def shl_def
  num_sub_def fsub_def fneg_def py_round_def fl64_def [of 0] value_eval

lemma as_float_60: "as_float (PInt 60) = Inr (Finite 60)"
  by (simp add: as_float_def round64_def Let_def fl64_examples)

lemma encode_60_1: "convert_rating_to_raw (PInt 60) 1 = 0"
  by (simp add: roundtrip_eval fl64_examples round_half_even_def floor_rat_numeral)

lemma decode_0_1: "convert_raw_to_rating 0 1 = 25"
  by (simp add: roundtrip_eval fl64_examples round_half_even_def floor_rat_numeral)

lemma encode_39_6: "convert_rating_to_raw (PFloat (Finite (5013 / 128))) 6 = 10"
  by (simp add: roundtrip_eval fl64_examples round_half_even_def floor_rat_numeral)

lemma decode_10_6: "convert_raw_to_rating 10 6 = 38"
  by (simp add: roundtrip_eval fl64_examples round_half_even_def floor_rat_numeral)

lemma encode_60_8: "convert_rating_to_raw (PInt 60) 8 = 105"
  by (simp add: roundtrip_eval fl64_examples round_half_even_def floor_rat_numeral)

lemma decode_105_8: "convert_raw_to_rating 105 8 = 60"
  by (simp add: roundtrip_eval fl64_examples round_half_even_def floor_rat_numeral)

text \<open>At width 8 the rating 60 is stored as 105 and read back as 60.\<close>

theorem scale_roundtrip_within_one_witness:
  "as_float (PInt 60) = Inr (Finite 60)
   \<and> convert_rating_to_raw (PInt 60) 8 = 105
   \<and> convert_raw_to_rating 105 8 = 60
   \<and> \<bar>rat_of_int (convert_raw_to_rating (convert_rating_to_raw (PInt 60) 8) 8) - clamp_rating 60\<bar> \<le> 1"
  using scale_roundtrip_within_one [of 8 "PInt 60" 60]
  by (simp add: as_float_60 encode_60_8 decode_105_8)

text \<open>
  At width 1 the rating 60 is stored as 0 and read back as 25; at width 6 the rating
  39.1640625 is stored as 10 and read back as 38.
\<close>

theorem scale_roundtrip_narrow_counterexample:
  "as_float (PInt 60) = Inr (Finite 60)
   \<and> convert_rating_to_raw (PInt 60) 1 = 0
   \<and> convert_raw_to_rating 0 1 = 25
   \<and> clamp_rating 60 = 60
   \<and> \<not> \<bar>rat_of_int (convert_raw_to_rating (convert_rating_to_raw (PInt 60) 1) 1)
            - clamp_rating 60\<bar> \<le> 1
   \<and> convert_rating_to_raw (PFloat (Finite (5013 / 128))) 6 = 10
   \<and> convert_raw_to_rating 10 6 = 38
   \<and> clamp_rating (5013 / 128) = 5013 / 128
   \<and> \<not> \<bar>rat_of_int (convert_raw_to_rating
              (convert_rating_to_raw (PFloat (Finite (5013 / 128))) 6) 6)
            - clamp_rating (5013 / 128)\<bar> \<le> 1"
  by (simp add: as_float_60 encode_60_1 decode_0_1 encode_39_6 decode_10_6 clamp_rating_def)

end
